theory Spec2Isabelle
  imports Main "HOL-Library.Sublist" "HOL-Library.Word"
begin

section \<open>JavaScript values\<close>

text \<open>
  The adapters receive their arguments as a plain object decoded from JSON and hand
  values to \<^verbatim>\<open>URLSearchParams.append\<close>, to template literals and to
  \<^verbatim>\<open>JSON.stringify\<close>. A value is therefore one of the JSON shapes, or
  \<^verbatim>\<open>undefined\<close> (what destructuring yields for a missing property).

  Numbers: \<open>JNum\<close> is an integer from \<open>-2^53\<close> to \<open>2^53 - 1\<close> (a 54-bit
  signed word), which a JavaScript number holds exactly and prints in plain decimal
  notation; \<open>JReal\<close> is any other finite number (non-integral, or outside that range),
  carried as the text that \<^verbatim>\<open>Number.prototype.toString\<close> prints for it (such
  a number is never zero, so it is truthy). Strings are sequences of bytes (the UTF-8
  encoding). Objects are plain data: the list of their own properties in insertion order;
  no value is a function.
\<close>

datatype jsval =
    JUndefined
  | JNull
  | JBool bool
  | JNum "54 word"
  | JReal string
  | JStr string
  | JArr "jsval list"
  | JObj "(string \<times> jsval) list"

type_synonym args = "(string \<times> jsval) list"

text \<open>Destructuring \<^verbatim>\<open>({ origin, mode = 'driving' }) => ...\<close>: a missing
  property reads as \<^verbatim>\<open>undefined\<close>, and a default replaces exactly
  \<^verbatim>\<open>undefined\<close>.\<close>

definition lookup :: "args \<Rightarrow> string \<Rightarrow> jsval" where
  "lookup a k = (case map_of a k of None \<Rightarrow> JUndefined | Some v \<Rightarrow> v)"

definition or_default :: "jsval \<Rightarrow> jsval \<Rightarrow> jsval" where
  "or_default v d = (if v = JUndefined then d else v)"

text \<open>The condition of \<^verbatim>\<open>if (x)\<close>.\<close>

fun truthy :: "jsval \<Rightarrow> bool" where
  "truthy JUndefined = False"
| "truthy JNull = False"
| "truthy (JBool b) = b"
| "truthy (JNum n) = (n \<noteq> 0)"
| "truthy (JReal s) = True"
| "truthy (JStr s) = (s \<noteq> [])"
| "truthy (JArr vs) = True"
| "truthy (JObj fs) = True"

fun digits :: "nat \<Rightarrow> string" where
  "digits n =
     (if n < 10 then [''0123456789'' ! n]
      else digits (n div 10) @ [''0123456789'' ! (n mod 10)])"

declare digits.simps [simp del]

definition show_int :: "int \<Rightarrow> string" where
  "show_int n = (if n < 0 then ''-'' @ digits (nat (- n)) else digits (nat n))"

fun join :: "string \<Rightarrow> string list \<Rightarrow> string" where
  "join sep [] = []"
| "join sep [s] = s"
| "join sep (s # t # ts) = s @ sep @ join sep (t # ts)"

text \<open>The text \<^verbatim>\<open>String(v)\<close> returns when it returns: what a template
  literal and \<^verbatim>\<open>URLSearchParams.append\<close> make of a value. An array joins
  its elements with commas, \<^verbatim>\<open>null\<close> and \<^verbatim>\<open>undefined\<close>
  elements printing as nothing.\<close>

fun to_str :: "jsval \<Rightarrow> string"
  and elems_str :: "jsval list \<Rightarrow> string list"
where
  "to_str JUndefined = ''undefined''"
| "to_str JNull = ''null''"
| "to_str (JBool b) = (if b then ''true'' else ''false'')"
| "to_str (JNum n) = show_int (sint n)"
| "to_str (JReal s) = s"
| "to_str (JStr s) = s"
| "to_str (JArr vs) = join '','' (elems_str vs)"
| "to_str (JObj fs) = ''[object Object]''"
| "elems_str [] = []"
| "elems_str (v # vs) =
     (if v = JUndefined \<or> v = JNull then [] else to_str v) # elems_str vs"

text \<open>\<^verbatim>\<open>String(v)\<close> throws a TypeError on an object that has an own
  property named \<^verbatim>\<open>toString\<close>: the property is data, not a function, so the
  conversion falls through to \<^verbatim>\<open>valueOf\<close>, which yields no primitive
  either. An array converts its elements, so it throws when one of them does.\<close>

fun unprintable :: "jsval \<Rightarrow> bool"
  and some_unprintable :: "jsval list \<Rightarrow> bool"
where
  "unprintable (JObj fs) = (''toString'' \<in> fst ` set fs)"
| "unprintable (JArr vs) = some_unprintable vs"
| "unprintable JUndefined = False"
| "unprintable JNull = False"
| "unprintable (JBool b) = False"
| "unprintable (JNum n) = False"
| "unprintable (JReal s) = False"
| "unprintable (JStr s) = False"
| "some_unprintable [] = False"
| "some_unprintable (v # vs) = (unprintable v \<or> some_unprintable vs)"

text \<open>A thrown Error is represented by its message. \<open>String_of v\<close> is
  \<^verbatim>\<open>String(v)\<close> with its failure; \<open>toString name v\<close> is the method call
  \<^verbatim>\<open>name.toString()\<close> on the variable \<open>name\<close> holding \<open>v\<close>, which
  also throws on \<^verbatim>\<open>undefined\<close> and \<^verbatim>\<open>null\<close>; a property read
  \<^verbatim>\<open>v.address\<close> throws on these two only.\<close>

definition String_of :: "jsval \<Rightarrow> string + string" where
  "String_of v =
     (if unprintable v then Inl ''Cannot convert object to primitive value''
      else Inr (to_str v))"

definition type_error :: "jsval \<Rightarrow> string \<Rightarrow> string" where
  "type_error v name =
     ''Cannot read properties of '' @ to_str v @ '' (reading '' @ [CHR 0x27] @ name @ [CHR 0x27] @ '')''"

definition toString :: "string \<Rightarrow> jsval \<Rightarrow> string + string" where
  "toString name v =
     (if v = JUndefined \<or> v = JNull then Inl (type_error v ''toString'')
      else (case v of
              JObj fs \<Rightarrow>
                (if ''toString'' \<in> fst ` set fs
                 then Inl (name @ ''.toString is not a function'')
                 else Inr (to_str v))
            | _ \<Rightarrow> String_of v))"

fun member :: "jsval \<Rightarrow> string \<Rightarrow> string + jsval" where
  "member JUndefined k = Inl (type_error JUndefined k)"
| "member JNull k = Inl (type_error JNull k)"
| "member (JObj fs) k = Inr (lookup fs k)"
| "member v k = Inr JUndefined"

subsection \<open>JSON.stringify\<close>

definition hex_lower :: "nat \<Rightarrow> char" where
  "hex_lower n = ''0123456789abcdef'' ! n"

definition json_escape :: "char \<Rightarrow> string" where
  "json_escape c =
     (if c = CHR 0x22 then [CHR 0x5C, CHR 0x22]
      else if c = CHR 0x5C then [CHR 0x5C, CHR 0x5C]
      else if c = CHR 0x08 then [CHR 0x5C, CHR ''b'']
      else if c = CHR 0x09 then [CHR 0x5C, CHR ''t'']
      else if c = CHR 0x0A then [CHR 0x5C, CHR ''n'']
      else if c = CHR 0x0C then [CHR 0x5C, CHR ''f'']
      else if c = CHR 0x0D then [CHR 0x5C, CHR ''r'']
      else if (of_char c :: nat) < 32
        then [CHR 0x5C, CHR ''u'', CHR ''0'', CHR ''0'',
              hex_lower (of_char c div 16), hex_lower (of_char c mod 16)]
      else [c])"

definition json_quote :: "string \<Rightarrow> string" where
  "json_quote s = [CHR 0x22] @ concat (map json_escape s) @ [CHR 0x22]"

text \<open>\<open>stringify v = None\<close> is \<^verbatim>\<open>JSON.stringify\<close> returning
  \<^verbatim>\<open>undefined\<close>. A property whose value is \<^verbatim>\<open>undefined\<close> is left
  out of its object; an \<^verbatim>\<open>undefined\<close> array element prints as
  \<^verbatim>\<open>null\<close>.\<close>

fun stringify :: "jsval \<Rightarrow> string option"
  and stringify_elems :: "jsval list \<Rightarrow> string list"
  and stringify_props :: "(string \<times> jsval) list \<Rightarrow> string list"
where
  "stringify JUndefined = None"
| "stringify JNull = Some ''null''"
| "stringify (JBool b) = Some (if b then ''true'' else ''false'')"
| "stringify (JNum n) = Some (show_int (sint n))"
| "stringify (JReal s) = Some s"
| "stringify (JStr s) = Some (json_quote s)"
| "stringify (JArr vs) = Some (''['' @ join '','' (stringify_elems vs) @ '']'')"
| "stringify (JObj fs) = Some (''{'' @ join '','' (stringify_props fs) @ ''}'')"
| "stringify_elems [] = []"
| "stringify_elems (v # vs) =
     (case stringify v of None \<Rightarrow> ''null'' | Some s \<Rightarrow> s) # stringify_elems vs"
| "stringify_props [] = []"
| "stringify_props (kv # fs) =
     (case stringify (snd kv) of
        None \<Rightarrow> stringify_props fs
      | Some s \<Rightarrow> (json_quote (fst kv) @ '':'' @ s) # stringify_props fs)"

subsection \<open>URLSearchParams and the URL string\<close>

text \<open>\<^verbatim>\<open>URLSearchParams.toString()\<close> is the
  application/x-www-form-urlencoded serializer: a space becomes \<^verbatim>\<open>+\<close>, the
  bytes \<^verbatim>\<open>* - . _\<close>, digits and ASCII letters stay, every other byte becomes
  \<^verbatim>\<open>%XX\<close>.\<close>

type_synonym params = "(string \<times> string) list"

definition form_safe :: "char \<Rightarrow> bool" where
  "form_safe c =
     (c \<in> set ''*-._0123456789ABCDEFGHIJKLMNOPQRSTUVWXYZabcdefghijklmnopqrstuvwxyz'')"

definition hex_upper :: "nat \<Rightarrow> char" where
  "hex_upper n = ''0123456789ABCDEF'' ! n"

definition form_encode_byte :: "char \<Rightarrow> string" where
  "form_encode_byte c =
     (if c = CHR '' '' then ''+''
      else if form_safe c then [c]
      else [CHR ''%'', hex_upper (of_char c div 16), hex_upper (of_char c mod 16)])"

definition form_encode :: "string \<Rightarrow> string" where
  "form_encode s = concat (map form_encode_byte s)"

definition form_serialize :: "params \<Rightarrow> string" where
  "form_serialize ps = join ''&'' (map (\<lambda>kv. form_encode (fst kv) @ ''='' @ form_encode (snd kv)) ps)"

text \<open>\<^verbatim>\<open>url.toString()\<close> for a URL built from a fixed endpoint string and
  the parameters appended to \<^verbatim>\<open>url.searchParams\<close>. The fixed endpoint
  strings of the adapters are in the URL parser's normal form and have no query and no
  fragment, so the parser returns them as they are.\<close>

definition href :: "string \<Rightarrow> params \<Rightarrow> string" where
  "href endpoint ps = endpoint @ (if ps = [] then [] else ''?'' @ form_serialize ps)"

subsection \<open>The URL parser on a path that comes from the caller\<close>

text \<open>\<open>get_place_details\<close> hands \<^verbatim>\<open>`${baseUrl}/${placeId}`\<close> to
  \<^verbatim>\<open>new URL\<close>, so the parser of the URL Standard works on text from the
  caller. On the text after a fixed prefix it: drops trailing C0 controls and spaces and
  every tab and newline; reads the path up to the first \<^verbatim>\<open>?\<close> or
  \<^verbatim>\<open>#\<close>, a query up to the first \<^verbatim>\<open>#\<close> and then the fragment;
  splits the path at \<^verbatim>\<open>/\<close> and \<^verbatim>\<open>\\<close>, percent-encodes each
  segment and resolves the dot segments; percent-encodes the fragment.\<close>

definition url_input :: "string \<Rightarrow> string" where
  "url_input s =
     filter (\<lambda>c. c \<noteq> CHR 0x09 \<and> c \<noteq> CHR 0x0A \<and> c \<noteq> CHR 0x0D)
       (rev (dropWhile (\<lambda>c. (of_char c :: nat) \<le> 32) (rev s)))"

definition in_c0_control_set :: "char \<Rightarrow> bool" where
  "in_c0_control_set c = ((of_char c :: nat) \<le> 31 \<or> (of_char c :: nat) > 126)"

definition in_fragment_set :: "char \<Rightarrow> bool" where
  "in_fragment_set c =
     (in_c0_control_set c \<or> c = CHR '' '' \<or> c = CHR 0x22 \<or> c = CHR ''<'' \<or> c = CHR ''>''
      \<or> c = CHR 0x60)"

definition in_query_set :: "char \<Rightarrow> bool" where
  "in_query_set c =
     (in_c0_control_set c \<or> c = CHR '' '' \<or> c = CHR 0x22 \<or> c = CHR ''#'' \<or> c = CHR ''<''
      \<or> c = CHR ''>'')"

definition in_path_set :: "char \<Rightarrow> bool" where
  "in_path_set c =
     (in_query_set c \<or> c = CHR ''?'' \<or> c = CHR 0x5E \<or> c = CHR 0x60 \<or> c = CHR ''{''
      \<or> c = CHR ''}'')"

definition percent_encode :: "(char \<Rightarrow> bool) \<Rightarrow> string \<Rightarrow> string" where
  "percent_encode encode_set s =
     concat (map (\<lambda>c. if encode_set c
                        then [CHR ''%'', hex_upper (of_char c div 16), hex_upper (of_char c mod 16)]
                        else [c]) s)"

fun split_where :: "(char \<Rightarrow> bool) \<Rightarrow> string \<Rightarrow> string list" where
  "split_where sep [] = [[]]"
| "split_where sep (x # xs) =
     (if sep x then [] # split_where sep xs
      else (case split_where sep xs of [] \<Rightarrow> [[x]] | w # ws \<Rightarrow> (x # w) # ws))"

definition single_dot :: "string \<Rightarrow> bool" where
  "single_dot s = (s \<in> {''.'', ''%2e'', ''%2E''})"

definition double_dot :: "string \<Rightarrow> bool" where
  "double_dot s =
     (s \<in> {''..'', ''.%2e'', ''.%2E'', ''%2e.'', ''%2E.'', ''%2e%2e'', ''%2e%2E'', ''%2E%2e'',
            ''%2E%2E''})"

text \<open>One path segment, percent-encoded, is added to the path read so far; \<open>final\<close>
  says that the segment ends the path (it is not followed by a separator).\<close>

definition path_step :: "string list \<Rightarrow> bool \<Rightarrow> string \<Rightarrow> string list" where
  "path_step path final buffer =
     (if double_dot buffer then butlast path @ (if final then [[]] else [])
      else if single_dot buffer then path @ (if final then [[]] else [])
      else path @ [buffer])"

fun path_segments :: "string list \<Rightarrow> string list \<Rightarrow> string list" where
  "path_segments path [] = path"
| "path_segments path [b] = path_step path True b"
| "path_segments path (b # b' # bs) = path_segments (path_step path False b) (b' # bs)"

text \<open>\<^verbatim>\<open>url.toString()\<close> after
  \<^verbatim>\<open>url = new URL(origin + path + tail); url.search = search\<close>, where
  \<open>origin\<close> is a fixed scheme and host, \<open>base_path\<close> the segments of the fixed path in front
  of the caller's text \<open>tail\<close>, and \<open>search\<close> the text of a
  \<^verbatim>\<open>URLSearchParams\<close> (which the setter stores as it is). Assigning the empty
  text removes the query; a query that came with \<open>tail\<close> is replaced in both cases.\<close>

definition href_with_search :: "string \<Rightarrow> string list \<Rightarrow> string \<Rightarrow> string \<Rightarrow> string" where
  "href_with_search origin base_path tail search =
     (let input = url_input tail;
          path_text = takeWhile (\<lambda>c. c \<noteq> CHR ''?'' \<and> c \<noteq> CHR ''#'') input;
          fragment = (case dropWhile (\<lambda>c. c \<noteq> CHR ''#'') input of
                        [] \<Rightarrow> None
                      | hash # f \<Rightarrow> Some (percent_encode in_fragment_set f));
          path = path_segments base_path
                   (map (percent_encode in_path_set)
                      (split_where (\<lambda>c. c = CHR ''/'' \<or> c = CHR 0x5C) path_text))
      in origin @ concat (map (\<lambda>segment. ''/'' @ segment) path)
           @ (if search = [] then [] else ''?'' @ search)
           @ (case fragment of None \<Rightarrow> [] | Some f \<Rightarrow> ''#'' @ f))"

section \<open>Requests, responses and the network\<close>

datatype http_method = GET | POST

text \<open>What an adapter hands to \<^verbatim>\<open>fetch\<close>: the URL string and the options
  object. Header values are kept as the JavaScript values the code writes there (the API
  key may be \<^verbatim>\<open>undefined\<close>); the body is the result of
  \<^verbatim>\<open>JSON.stringify\<close>.\<close>

record request =
  meth :: http_method
  url :: string
  headers :: "(string \<times> jsval) list"
  body :: "string option"

text \<open>A response carries its status line and its body. \<^verbatim>\<open>JSON.parse\<close> is not
  re-implemented: \<open>body_json\<close> is what \<^verbatim>\<open>response.json()\<close> makes of the
  body, the parsed value or the message of the SyntaxError it throws;
  \<open>body_text\<close> is what \<^verbatim>\<open>response.text()\<close> and
  \<^verbatim>\<open>response.buffer()\<close> read.\<close>

record response =
  status :: nat
  statusText :: string
  body_text :: string
  body_json :: "string + jsval"

text \<open>\<^verbatim>\<open>fetch\<close> either rejects with an Error (a network failure, given by
  its message) or resolves to a response.\<close>

datatype fetch_outcome = NetworkError string | Response response

type_synonym network = "request \<Rightarrow> fetch_outcome"

definition ok :: "response \<Rightarrow> bool" where
  "ok r = (200 \<le> status r \<and> status r \<le> 299)"

text \<open>\<^verbatim>\<open>process.env.GOOGLE_MAPS_PLATFORM_API_KEY\<close>: unset, or a string.\<close>

type_synonym env = "string option"

definition api_key :: "env \<Rightarrow> jsval" where
  "api_key env = (case env of None \<Rightarrow> JUndefined | Some k \<Rightarrow> JStr k)"

subsection \<open>Building the query\<close>

text \<open>The four statement shapes that fill \<^verbatim>\<open>url.searchParams\<close>:
  \<^item> \<open>Append k v\<close>: \<^verbatim>\<open>url.searchParams.append(k, v)\<close>;
  \<^item> \<open>AppendIf k v\<close>: \<^verbatim>\<open>if (v) url.searchParams.append(k, v)\<close>;
  \<^item> \<open>AppendString k v\<close>: \<^verbatim>\<open>url.searchParams.append(k, v.toString())\<close>;
  \<^item> \<open>AppendStringIf k v\<close>: \<^verbatim>\<open>if (v) url.searchParams.append(k, v.toString())\<close>.
  In the last two the variable that holds \<open>v\<close> has the name of the parameter \<open>k\<close>
  in every adapter. \<^verbatim>\<open>append\<close> converts its argument with
  \<^verbatim>\<open>String\<close>. A statement that throws ends the sequence with the Error's
  message.\<close>

datatype step =
    Append string jsval
  | AppendIf string jsval
  | AppendString string jsval
  | AppendStringIf string jsval

fun append_step :: "params \<Rightarrow> step \<Rightarrow> string + params" where
  "append_step ps (Append k v) =
     (case String_of v of Inl m \<Rightarrow> Inl m | Inr s \<Rightarrow> Inr (ps @ [(k, s)]))"
| "append_step ps (AppendIf k v) =
     (if truthy v
      then (case String_of v of Inl m \<Rightarrow> Inl m | Inr s \<Rightarrow> Inr (ps @ [(k, s)]))
      else Inr ps)"
| "append_step ps (AppendString k v) =
     (case toString k v of Inl m \<Rightarrow> Inl m | Inr s \<Rightarrow> Inr (ps @ [(k, s)]))"
| "append_step ps (AppendStringIf k v) =
     (if truthy v
      then (case toString k v of Inl m \<Rightarrow> Inl m | Inr s \<Rightarrow> Inr (ps @ [(k, s)]))
      else Inr ps)"

fun append_steps :: "params \<Rightarrow> step list \<Rightarrow> string + params" where
  "append_steps ps [] = Inr ps"
| "append_steps ps (st # sts) =
     (case append_step ps st of Inl m \<Rightarrow> Inl m | Inr ps' \<Rightarrow> append_steps ps' sts)"

text \<open>Where an Error was thrown while the request was being put together: before the
  \<^verbatim>\<open>try\<close> block was entered, or inside it.\<close>

datatype abort = BeforeTry string | InTry string

definition with_params :: "step list \<Rightarrow> (params \<Rightarrow> request) \<Rightarrow> abort + request" where
  "with_params steps k =
     (case append_steps [] steps of Inl m \<Rightarrow> Inl (InTry m) | Inr ps \<Rightarrow> Inr (k ps))"

section \<open>The adapters: from arguments to the request\<close>

text \<open>One definition per \<^verbatim>\<open>executeFunction\<close>, named after the tool it is
  registered as. For the adapters that fill a \<^verbatim>\<open>URLSearchParams\<close> the
  statements are listed first (\<open>_params\<close>); for those that post JSON the object
  handed to \<^verbatim>\<open>JSON.stringify\<close> is given first (\<open>_requestBody\<close>).\<close>

subsection \<open>directions.js\<close>

definition get_directions_params :: "env \<Rightarrow> args \<Rightarrow> step list" where
  "get_directions_params env a =
     (let origin = lookup a ''origin'';
          destination = lookup a ''destination'';
          mode = or_default (lookup a ''mode'') (JStr ''driving'');
          language = or_default (lookup a ''language'') (JStr ''en'');
          units = or_default (lookup a ''units'') (JStr ''metric'');
          departure_time = lookup a ''departure_time'';
          arrival_time = lookup a ''arrival_time'';
          alternatives = or_default (lookup a ''alternatives'') (JBool False);
          avoid = lookup a ''avoid'';
          waypoints = lookup a ''waypoints'';
          region = lookup a ''region'';
          traffic_model = or_default (lookup a ''traffic_model'') (JStr ''best_guess'');
          apiKey = api_key env
      in [Append ''origin'' origin,
          Append ''destination'' destination,
          Append ''mode'' mode,
          Append ''language'' language,
          Append ''units'' units,
          AppendIf ''departure_time'' departure_time,
          AppendIf ''arrival_time'' arrival_time,
          AppendIf ''alternatives'' alternatives,
          AppendIf ''avoid'' avoid,
          AppendIf ''waypoints'' waypoints,
          AppendIf ''region'' region,
          AppendIf ''traffic_model'' traffic_model,
          Append ''key'' apiKey])"

definition get_directions_request :: "env \<Rightarrow> args \<Rightarrow> abort + request" where
  "get_directions_request env a =
     with_params (get_directions_params env a)
       (\<lambda>ps. \<lparr>meth = GET,
              url = href (''https://www.googleapis.com'' @ ''/maps/api/directions/json'') ps,
              headers = [(''Accept'', JStr ''application/json'')],
              body = None\<rparr>)"

subsection \<open>street-view.js\<close>

definition get_street_view_params :: "env \<Rightarrow> args \<Rightarrow> step list" where
  "get_street_view_params env a =
     (let size = lookup a ''size'';
          fov = or_default (lookup a ''fov'') (JNum 90);
          heading = lookup a ''heading'';
          location = lookup a ''location'';
          pano = lookup a ''pano'';
          pitch = or_default (lookup a ''pitch'') (JNum 0);
          radius = or_default (lookup a ''radius'') (JNum 50);
          return_error_code = or_default (lookup a ''return_error_code'') (JBool False);
          signature = lookup a ''signature'';
          source = lookup a ''source'';
          apiKey = api_key env
      in [Append ''size'' size,
          AppendIf ''fov'' fov,
          AppendIf ''heading'' heading,
          AppendIf ''location'' location,
          AppendIf ''pano'' pano,
          AppendIf ''pitch'' pitch,
          AppendIf ''radius'' radius,
          AppendIf ''return_error_code'' return_error_code,
          AppendIf ''signature'' signature,
          AppendIf ''source'' source,
          Append ''key'' apiKey])"

definition get_street_view_request :: "env \<Rightarrow> args \<Rightarrow> abort + request" where
  "get_street_view_request env a =
     with_params (get_street_view_params env a)
       (\<lambda>ps. \<lparr>meth = GET,
              url = href (''https://www.googleapis.com'' @ ''/maps/api/streetview'') ps,
              headers = [(''Accept'', JStr ''image/*'')],
              body = None\<rparr>)"

subsection \<open>get_route and get_building_insights\<close>

text \<open>\<open>get_route\<close> reads \<^verbatim>\<open>origin.address\<close> and
  \<^verbatim>\<open>destination.address\<close> while it builds the request body, before its
  \<^verbatim>\<open>try\<close> block.\<close>

definition get_route_requestBody :: "args \<Rightarrow> string + jsval" where
  "get_route_requestBody a =
     (let origin = lookup a ''origin'';
          destination = lookup a ''destination''
      in case member origin ''address'' of
           Inl m \<Rightarrow> Inl m
         | Inr origin_address \<Rightarrow>
             (case member destination ''address'' of
                Inl m \<Rightarrow> Inl m
              | Inr destination_address \<Rightarrow>
                  Inr (JObj [(''origin'', JObj [(''address'', origin_address)]),
                             (''destination'', JObj [(''address'', destination_address)])])))"

definition get_route_request :: "env \<Rightarrow> args \<Rightarrow> abort + request" where
  "get_route_request env a =
     (let baseUrl = ''https://routes.googleapis.com'';
          apiKey = api_key env;
          url = baseUrl @ ''/directions/v2:computeRoutes''
      in case get_route_requestBody a of
           Inl m \<Rightarrow> Inl (BeforeTry m)
         | Inr requestBody \<Rightarrow>
             Inr \<lparr>meth = POST,
                  url = url,
                  headers = [(''X-Goog-FieldMask'', JStr ''*''),
                             (''Content-Type'', JStr ''application/json''),
                             (''X-Goog-Api-Key'', apiKey)],
                  body = stringify requestBody\<rparr>)"

definition get_building_insights_params :: "env \<Rightarrow> args \<Rightarrow> step list" where
  "get_building_insights_params env a =
     (let latitude = lookup a ''latitude'';
          longitude = lookup a ''longitude'';
          apiKey = api_key env
      in [Append ''location.latitude'' latitude,
          Append ''location.longitude'' longitude,
          Append ''requiredQuality'' (JStr ''HIGH''),
          Append ''key'' apiKey])"

definition get_building_insights_request :: "env \<Rightarrow> args \<Rightarrow> abort + request" where
  "get_building_insights_request env a =
     with_params (get_building_insights_params env a)
       (\<lambda>ps. \<lparr>meth = GET,
              url = href (''https://solar.googleapis.com'' @ ''/v1/buildingInsights:findClosest'') ps,
              headers = [],
              body = None\<rparr>)"

subsection \<open>render_video, text_search_places and get_video\<close>

definition render_video_requestBody :: "args \<Rightarrow> jsval" where
  "render_video_requestBody a =
     (let address = lookup a ''address'' in JObj [(''address'', address)])"

definition render_video_request :: "env \<Rightarrow> args \<Rightarrow> abort + request" where
  "render_video_request env a =
     (let baseUrl = ''https://www.googleapis.com'';
          apiKey = api_key env;
          url = baseUrl @ ''/v1/videos:renderVideo?key='' @ to_str apiKey
      in Inr \<lparr>meth = POST,
              url = url,
              headers = [(''Content-Type'', JStr ''application/json'')],
              body = stringify (render_video_requestBody a)\<rparr>)"

definition text_search_places_requestBody :: "args \<Rightarrow> jsval" where
  "text_search_places_requestBody a =
     JObj [(''textQuery'', lookup a ''textQuery''),
           (''includedType'', lookup a ''includedType''),
           (''languageCode'', lookup a ''languageCode''),
           (''locationBias'', lookup a ''locationBias''),
           (''locationRestriction'', lookup a ''locationRestriction''),
           (''evOptions'', lookup a ''evOptions''),
           (''minRating'', lookup a ''minRating''),
           (''openNow'', lookup a ''openNow''),
           (''pageSize'', lookup a ''pageSize''),
           (''pageToken'', lookup a ''pageToken''),
           (''priceLevels'', lookup a ''priceLevels''),
           (''rankPreference'', lookup a ''rankPreference''),
           (''regionCode'', lookup a ''regionCode''),
           (''strictTypeFiltering'', lookup a ''strictTypeFiltering'')]"

definition text_search_places_request :: "env \<Rightarrow> args \<Rightarrow> abort + request" where
  "text_search_places_request env a =
     (let baseUrl = ''https://places.googleapis.com/v1/places:searchText'';
          apiKey = api_key env
      in Inr \<lparr>meth = POST,
              url = baseUrl,
              headers = [(''Content-Type'', JStr ''application/json''),
                         (''X-Goog-FieldMask'', JStr ''*''),
                         (''X-Goog-Api-Key'', apiKey)],
              body = stringify (text_search_places_requestBody a)\<rparr>)"

text \<open>\<open>get_video\<close> appends \<^verbatim>\<open>videoId\<close> to the URL's search parameters
  and then passes \<^verbatim>\<open>`${url.toString()}?key=${apiKey}`\<close> to fetch.\<close>

definition get_video_params :: "env \<Rightarrow> args \<Rightarrow> step list" where
  "get_video_params env a =
     (let videoId = lookup a ''videoId'' in [Append ''videoId'' videoId])"

definition get_video_request :: "env \<Rightarrow> args \<Rightarrow> abort + request" where
  "get_video_request env a =
     (let baseUrl = ''https://aerialview.googleapis.com/v1/videos:lookupVideo'';
          apiKey = api_key env
      in with_params (get_video_params env a)
           (\<lambda>ps. \<lparr>meth = GET,
                  url = href baseUrl ps @ ''?key='' @ to_str apiKey,
                  headers = [(''Content-Type'', JStr ''application/json'')],
                  body = None\<rparr>))"

subsection \<open>validate_address and geocode_address\<close>

definition validate_address_requestBody :: "args \<Rightarrow> jsval" where
  "validate_address_requestBody a =
     (let regionCode = lookup a ''regionCode'';
          locality = lookup a ''locality'';
          addressLines = lookup a ''addressLines''
      in JObj [(''address'', JObj [(''regionCode'', regionCode),
                                   (''locality'', locality),
                                   (''addressLines'', addressLines)])])"

definition validate_address_request :: "env \<Rightarrow> args \<Rightarrow> abort + request" where
  "validate_address_request env a =
     (let baseUrl = ''https://www.googleapis.com'';
          apiKey = api_key env;
          url = baseUrl @ ''/addressvalidation.googleapis.com/v1:validateAddress?key='' @ to_str apiKey
      in Inr \<lparr>meth = POST,
              url = url,
              headers = [(''Content-Type'', JStr ''application/json'')],
              body = stringify (validate_address_requestBody a)\<rparr>)"

definition geocode_address_params :: "env \<Rightarrow> args \<Rightarrow> step list" where
  "geocode_address_params env a =
     (let address = lookup a ''address'';
          bounds = lookup a ''bounds'';
          components = lookup a ''components'';
          latlng = lookup a ''latlng'';
          place_id = lookup a ''place_id'';
          language = or_default (lookup a ''language'') (JStr ''en'');
          region = or_default (lookup a ''region'') (JStr ''en'');
          apiKey = api_key env
      in [Append ''address'' address,
          AppendIf ''bounds'' bounds,
          AppendIf ''components'' components,
          AppendIf ''latlng'' latlng,
          AppendIf ''place_id'' place_id,
          Append ''language'' language,
          Append ''region'' region,
          Append ''key'' apiKey])"

definition geocode_address_request :: "env \<Rightarrow> args \<Rightarrow> abort + request" where
  "geocode_address_request env a =
     with_params (geocode_address_params env a)
       (\<lambda>ps. \<lparr>meth = GET,
              url = href (''https://www.googleapis.com'' @ ''/maps/api/geocode/json'') ps,
              headers = [(''Accept'', JStr ''application/json'')],
              body = None\<rparr>)"

subsection \<open>compute_insights (Places Aggregate), query_autocomplete, provide_validation_feedback\<close>

definition compute_insights_requestBody :: "args \<Rightarrow> jsval" where
  "compute_insights_requestBody a =
     (let insights = lookup a ''insights'';
          filter = lookup a ''filter''
      in JObj [(''insights'', insights), (''filter'', filter)])"

definition compute_insights_request :: "env \<Rightarrow> args \<Rightarrow> abort + request" where
  "compute_insights_request env a =
     (let baseUrl = ''https://areainsights.googleapis.com/v1:computeInsights'';
          apiKey = api_key env
      in Inr \<lparr>meth = POST,
              url = baseUrl,
              headers = [(''X-Goog-Api-Key'', apiKey),
                         (''Content-Type'', JStr ''application/json'')],
              body = stringify (compute_insights_requestBody a)\<rparr>)"

definition query_autocomplete_params :: "env \<Rightarrow> args \<Rightarrow> step list" where
  "query_autocomplete_params env a =
     (let input = lookup a ''input'';
          offset = lookup a ''offset'';
          location = lookup a ''location'';
          radius = lookup a ''radius'';
          language = or_default (lookup a ''language'') (JStr ''en'');
          apiKey = api_key env
      in [Append ''input'' input,
          AppendIf ''offset'' offset,
          AppendIf ''location'' location,
          AppendIf ''radius'' radius,
          Append ''language'' language,
          Append ''key'' apiKey])"

definition query_autocomplete_request :: "env \<Rightarrow> args \<Rightarrow> abort + request" where
  "query_autocomplete_request env a =
     with_params (query_autocomplete_params env a)
       (\<lambda>ps. \<lparr>meth = GET,
              url = href (''https://www.googleapis.com'' @ ''/maps/api/place/queryautocomplete/json'') ps,
              headers = [(''Accept'', JStr ''application/json'')],
              body = None\<rparr>)"

definition provide_validation_feedback_requestBody :: "args \<Rightarrow> jsval" where
  "provide_validation_feedback_requestBody a =
     (let conclusion = lookup a ''conclusion'';
          responseId = lookup a ''responseId''
      in JObj [(''conclusion'', conclusion), (''responseId'', responseId)])"

definition provide_validation_feedback_request :: "env \<Rightarrow> args \<Rightarrow> abort + request" where
  "provide_validation_feedback_request env a =
     (let baseUrl = ''https://addressvalidation.googleapis.com'';
          apiKey = api_key env;
          url = baseUrl @ ''/v1:provideValidationFeedback?key='' @ to_str apiKey
      in Inr \<lparr>meth = POST,
              url = url,
              headers = [(''Content-Type'', JStr ''application/json'')],
              body = stringify (provide_validation_feedback_requestBody a)\<rparr>)"

subsection \<open>get-a-route-matrix.js: get_route_matrix and get_place_photo\<close>

definition get_route_matrix_requestBody :: "args \<Rightarrow> jsval" where
  "get_route_matrix_requestBody a =
     (let origins = lookup a ''origins'';
          destinations = lookup a ''destinations'';
          travelMode = or_default (lookup a ''travelMode'') (JStr ''DRIVE'');
          routingPreference = or_default (lookup a ''routingPreference'') (JStr ''TRAFFIC_AWARE'')
      in JObj [(''origins'', origins),
               (''destinations'', destinations),
               (''travelMode'', travelMode),
               (''routingPreference'', routingPreference)])"

definition get_route_matrix_request :: "env \<Rightarrow> args \<Rightarrow> abort + request" where
  "get_route_matrix_request env a =
     (let baseUrl = ''https://routes.googleapis.com'';
          apiKey = api_key env;
          url = baseUrl @ ''/distanceMatrix/v2:computeRouteMatrix''
      in Inr \<lparr>meth = POST,
              url = url,
              headers = [(''X-Goog-FieldMask'', JStr ''*''),
                         (''Content-Type'', JStr ''application/json''),
                         (''X-Goog-Api-Key'', apiKey)],
              body = stringify (get_route_matrix_requestBody a)\<rparr>)"

definition get_place_photo_params :: "env \<Rightarrow> args \<Rightarrow> step list" where
  "get_place_photo_params env a =
     (let photo_reference = lookup a ''photo_reference'';
          maxheight = lookup a ''maxheight'';
          maxwidth = lookup a ''maxwidth'';
          apiKey = api_key env
      in [Append ''photo_reference'' photo_reference,
          AppendStringIf ''maxheight'' maxheight,
          AppendStringIf ''maxwidth'' maxwidth,
          Append ''key'' apiKey])"

definition get_place_photo_request :: "env \<Rightarrow> args \<Rightarrow> abort + request" where
  "get_place_photo_request env a =
     with_params (get_place_photo_params env a)
       (\<lambda>ps. \<lparr>meth = GET,
              url = href ''https://maps.googleapis.com/maps/api/place/photo'' ps,
              headers = [(''Accept'', JStr ''image/*'')],
              body = None\<rparr>)"

subsection \<open>get-heatmap-tiles.js: get_heatmap_tiles and compute_insights\<close>

text \<open>The template literal of \<open>get_heatmap_tiles\<close> converts the four arguments
  and the key in the order they stand in it, inside the \<^verbatim>\<open>try\<close> block.\<close>

fun interpolate :: "jsval list \<Rightarrow> string + string list" where
  "interpolate [] = Inr []"
| "interpolate (v # vs) =
     (case String_of v of
        Inl m \<Rightarrow> Inl m
      | Inr s \<Rightarrow> (case interpolate vs of Inl m \<Rightarrow> Inl m | Inr ss \<Rightarrow> Inr (s # ss)))"

definition get_heatmap_tiles_request :: "env \<Rightarrow> args \<Rightarrow> abort + request" where
  "get_heatmap_tiles_request env a =
     (let mapType = lookup a ''mapType'';
          x = lookup a ''x'';
          y = lookup a ''y'';
          zoom = lookup a ''zoom'';
          baseUrl = ''https://pollen.googleapis.com'';
          apiKey = api_key env
      in case interpolate [mapType, zoom, x, y, apiKey] of
           Inr [mapType_text, zoom_text, x_text, y_text, apiKey_text] \<Rightarrow>
             Inr \<lparr>meth = GET,
                  url = baseUrl @ ''/v1/mapTypes/'' @ mapType_text @ ''/heatmapTiles/'' @ zoom_text
                          @ ''/'' @ x_text @ ''/'' @ y_text @ ''?key='' @ apiKey_text,
                  headers = [],
                  body = None\<rparr>
         | Inr other \<Rightarrow> Inl (InTry [])
         | Inl m \<Rightarrow> Inl (InTry m))"

definition compute_insights2_requestBody :: "args \<Rightarrow> jsval" where
  "compute_insights2_requestBody a =
     (let insights = lookup a ''insights'';
          filter = lookup a ''filter''
      in JObj [(''insights'', insights), (''filter'', filter)])"

definition compute_insights2_request :: "env \<Rightarrow> args \<Rightarrow> abort + request" where
  "compute_insights2_request env a =
     (let baseUrl = ''https://areainsights.googleapis.com'';
          apiKey = api_key env;
          url = baseUrl @ ''/v1:computeInsights''
      in Inr \<lparr>meth = POST,
              url = url,
              headers = [(''Content-Type'', JStr ''application/json''),
                         (''X-Goog-Api-Key'', apiKey)],
              body = stringify (compute_insights2_requestBody a)\<rparr>)"

subsection \<open>history-hours.js, geolocate.js, get-data-layers.js\<close>

definition get_hourly_weather_params :: "env \<Rightarrow> args \<Rightarrow> step list" where
  "get_hourly_weather_params env a =
     (let latitude = lookup a ''latitude'';
          longitude = lookup a ''longitude'';
          unitsSystem = or_default (lookup a ''unitsSystem'') (JStr ''METRIC'');
          pageSize = or_default (lookup a ''pageSize'') (JNum 24);
          pageToken = lookup a ''pageToken'';
          hours = or_default (lookup a ''hours'') (JNum 24);
          languageCode = or_default (lookup a ''languageCode'') (JStr ''en'');
          apiKey = api_key env
      in [Append ''location.latitude'' latitude,
          Append ''location.longitude'' longitude,
          Append ''unitsSystem'' unitsSystem,
          AppendString ''pageSize'' pageSize,
          AppendIf ''pageToken'' pageToken,
          AppendString ''hours'' hours,
          Append ''languageCode'' languageCode,
          Append ''key'' apiKey])"

definition get_hourly_weather_request :: "env \<Rightarrow> args \<Rightarrow> abort + request" where
  "get_hourly_weather_request env a =
     with_params (get_hourly_weather_params env a)
       (\<lambda>ps. \<lparr>meth = GET,
              url = href (''https://weather.googleapis.com'' @ ''/v1/history/hours:lookup'') ps,
              headers = [(''Content-Type'', JStr ''application/json'')],
              body = None\<rparr>)"

definition geolocate_requestBody :: "args \<Rightarrow> jsval" where
  "geolocate_requestBody a =
     (let cellTowers = lookup a ''cellTowers'';
          wifiAccessPoints = lookup a ''wifiAccessPoints'';
          considerIp = or_default (lookup a ''considerIp'') (JBool False)
      in JObj [(''considerIp'', considerIp),
               (''cellTowers'', cellTowers),
               (''wifiAccessPoints'', wifiAccessPoints)])"

definition geolocate_request :: "env \<Rightarrow> args \<Rightarrow> abort + request" where
  "geolocate_request env a =
     (let baseUrl = ''https://www.googleapis.com'';
          apiKey = api_key env;
          url = baseUrl @ ''/geolocation/v1/geolocate?key='' @ to_str apiKey
      in Inr \<lparr>meth = POST,
              url = url,
              headers = [(''Content-Type'', JStr ''application/json''),
                         (''Accept'', JStr ''application/json'')],
              body = stringify (geolocate_requestBody a)\<rparr>)"

definition get_data_layers_params :: "env \<Rightarrow> args \<Rightarrow> step list" where
  "get_data_layers_params env a =
     (let latitude = lookup a ''latitude'';
          longitude = lookup a ''longitude'';
          radiusMeters = or_default (lookup a ''radiusMeters'') (JNum 100);
          view = or_default (lookup a ''view'') (JStr ''FULL_LAYERS'');
          requiredQuality = or_default (lookup a ''requiredQuality'') (JStr ''HIGH'');
          pixelSizeMeters = or_default (lookup a ''pixelSizeMeters'') (JReal ''0.5'');
          apiKey = api_key env
      in [Append ''location.latitude'' latitude,
          Append ''location.longitude'' longitude,
          AppendString ''radiusMeters'' radiusMeters,
          Append ''view'' view,
          Append ''requiredQuality'' requiredQuality,
          AppendString ''pixelSizeMeters'' pixelSizeMeters,
          Append ''key'' apiKey])"

definition get_data_layers_request :: "env \<Rightarrow> args \<Rightarrow> abort + request" where
  "get_data_layers_request env a =
     with_params (get_data_layers_params env a)
       (\<lambda>ps. \<lparr>meth = GET,
              url = href (''https://solar.googleapis.com'' @ ''/v1/dataLayers:get'') ps,
              headers = [],
              body = None\<rparr>)"

subsection \<open>get-place-details.js, elevation.js, distance-matrix.js\<close>

text \<open>\<open>get_place_details\<close> builds the URL from
  \<^verbatim>\<open>`${baseUrl}/${placeId}`\<close>, collects its parameters in a separate
  \<^verbatim>\<open>URLSearchParams\<close> and assigns their serialization to
  \<^verbatim>\<open>url.search\<close>; the key travels in a header.\<close>

definition get_place_details_params :: "env \<Rightarrow> args \<Rightarrow> step list" where
  "get_place_details_params env a =
     (let languageCode = lookup a ''languageCode'';
          regionCode = lookup a ''regionCode'';
          sessionToken = lookup a ''sessionToken''
      in [AppendIf ''languageCode'' languageCode,
          AppendIf ''regionCode'' regionCode,
          AppendIf ''sessionToken'' sessionToken])"

definition get_place_details_request :: "env \<Rightarrow> args \<Rightarrow> abort + request" where
  "get_place_details_request env a =
     (let placeId = lookup a ''placeId'';
          apiKey = api_key env
      in case String_of placeId of
           Inl m \<Rightarrow> Inl (InTry m)
         | Inr placeId_text \<Rightarrow>
             with_params (get_place_details_params env a)
               (\<lambda>ps. \<lparr>meth = GET,
                      url = href_with_search ''https://places.googleapis.com''
                              [''v1'', ''places''] placeId_text (form_serialize ps),
                      headers = [(''X-Goog-Api-Key'', apiKey),
                                 (''X-Goog-FieldMask'', JStr ''*''),
                                 (''Content-Type'', JStr ''application/json'')],
                      body = None\<rparr>))"

definition get_elevation_params :: "env \<Rightarrow> args \<Rightarrow> step list" where
  "get_elevation_params env a =
     (let locations = lookup a ''locations'';
          path = lookup a ''path'';
          samples = lookup a ''samples'';
          apiKey = api_key env
      in [Append ''locations'' locations,
          AppendIf ''path'' path,
          AppendStringIf ''samples'' samples,
          Append ''key'' apiKey])"

definition get_elevation_request :: "env \<Rightarrow> args \<Rightarrow> abort + request" where
  "get_elevation_request env a =
     with_params (get_elevation_params env a)
       (\<lambda>ps. \<lparr>meth = GET,
              url = href ''https://maps.googleapis.com/maps/api/elevation/json'' ps,
              headers = [(''Accept'', JStr ''application/json'')],
              body = None\<rparr>)"

definition distance_matrix_params :: "env \<Rightarrow> args \<Rightarrow> step list" where
  "distance_matrix_params env a =
     (let origins = lookup a ''origins'';
          destinations = lookup a ''destinations'';
          mode = or_default (lookup a ''mode'') (JStr ''driving'');
          units = or_default (lookup a ''units'') (JStr ''metric'');
          language = or_default (lookup a ''language'') (JStr ''en'');
          departure_time = lookup a ''departure_time'';
          arrival_time = lookup a ''arrival_time'';
          avoid = lookup a ''avoid'';
          region = or_default (lookup a ''region'') (JStr ''en'');
          traffic_model = or_default (lookup a ''traffic_model'') (JStr ''best_guess'');
          transit_mode = lookup a ''transit_mode'';
          transit_routing_preference = lookup a ''transit_routing_preference'';
          apiKey = api_key env
      in [Append ''origins'' origins,
          Append ''destinations'' destinations,
          Append ''mode'' mode,
          Append ''units'' units,
          Append ''language'' language,
          AppendIf ''departure_time'' departure_time,
          AppendIf ''arrival_time'' arrival_time,
          AppendIf ''avoid'' avoid,
          AppendIf ''region'' region,
          AppendIf ''traffic_model'' traffic_model,
          AppendIf ''transit_mode'' transit_mode,
          AppendIf ''transit_routing_preference'' transit_routing_preference,
          Append ''key'' apiKey])"

definition distance_matrix_request :: "env \<Rightarrow> args \<Rightarrow> abort + request" where
  "distance_matrix_request env a =
     with_params (distance_matrix_params env a)
       (\<lambda>ps. \<lparr>meth = GET,
              url = href ''https://maps.googleapis.com/maps/api/distancematrix/json'' ps,
              headers = [(''Accept'', JStr ''application/json'')],
              body = None\<rparr>)"

subsection \<open>street-view-metadata.js, autocomplete.js, get-forecast.js\<close>

definition get_street_view_metadata_params :: "env \<Rightarrow> args \<Rightarrow> step list" where
  "get_street_view_metadata_params env a =
     (let location = lookup a ''location'';
          heading = lookup a ''heading'';
          pano = lookup a ''pano'';
          pitch = lookup a ''pitch'';
          radius = or_default (lookup a ''radius'') (JNum 50);
          return_error_code = or_default (lookup a ''return_error_code'') (JBool False);
          signature = lookup a ''signature'';
          size = lookup a ''size'';
          source = lookup a ''source'';
          apiKey = api_key env
      in [Append ''location'' location,
          AppendIf ''heading'' heading,
          AppendIf ''pano'' pano,
          AppendIf ''pitch'' pitch,
          AppendIf ''radius'' radius,
          AppendIf ''return_error_code'' return_error_code,
          AppendIf ''signature'' signature,
          AppendIf ''size'' size,
          AppendIf ''source'' source,
          Append ''key'' apiKey])"

definition get_street_view_metadata_request :: "env \<Rightarrow> args \<Rightarrow> abort + request" where
  "get_street_view_metadata_request env a =
     with_params (get_street_view_metadata_params env a)
       (\<lambda>ps. \<lparr>meth = GET,
              url = href (''https://www.googleapis.com'' @ ''/maps/api/streetview/metadata'') ps,
              headers = [(''Accept'', JStr ''application/json'')],
              body = None\<rparr>)"

definition autocomplete_places_params :: "env \<Rightarrow> args \<Rightarrow> step list" where
  "autocomplete_places_params env a =
     (let input = lookup a ''input'';
          sessiontoken = lookup a ''sessiontoken'';
          components = lookup a ''components'';
          strictbounds = lookup a ''strictbounds'';
          offset = lookup a ''offset'';
          origin = lookup a ''origin'';
          location = lookup a ''location'';
          radius = lookup a ''radius'';
          types = lookup a ''types'';
          language = or_default (lookup a ''language'') (JStr ''en'');
          region = or_default (lookup a ''region'') (JStr ''en'');
          apiKey = api_key env
      in [Append ''input'' input,
          AppendIf ''sessiontoken'' sessiontoken,
          AppendIf ''components'' components,
          AppendIf ''strictbounds'' strictbounds,
          AppendIf ''offset'' offset,
          AppendIf ''origin'' origin,
          AppendIf ''location'' location,
          AppendIf ''radius'' radius,
          AppendIf ''types'' types,
          AppendIf ''language'' language,
          AppendIf ''region'' region,
          Append ''key'' apiKey])"

definition autocomplete_places_request :: "env \<Rightarrow> args \<Rightarrow> abort + request" where
  "autocomplete_places_request env a =
     with_params (autocomplete_places_params env a)
       (\<lambda>ps. \<lparr>meth = GET,
              url = href ''https://maps.googleapis.com/maps/api/place/autocomplete/json'' ps,
              headers = [(''Accept'', JStr ''application/json'')],
              body = None\<rparr>)"

text \<open>\<open>get_forecast\<close> is the one adapter that tests the key:
  \<^verbatim>\<open>if (apiKey) url.searchParams.append('key', apiKey)\<close>.\<close>

definition get_forecast_params :: "env \<Rightarrow> args \<Rightarrow> step list" where
  "get_forecast_params env a =
     (let longitude = lookup a ''longitude'';
          latitude = lookup a ''latitude'';
          days = lookup a ''days'';
          apiKey = api_key env
      in [Append ''location.longitude'' longitude,
          Append ''location.latitude'' latitude,
          AppendString ''days'' days,
          AppendIf ''key'' apiKey])"

definition get_forecast_request :: "env \<Rightarrow> args \<Rightarrow> abort + request" where
  "get_forecast_request env a =
     with_params (get_forecast_params env a)
       (\<lambda>ps. \<lparr>meth = GET,
              url = href (''https://pollen.googleapis.com'' @ ''/v1/forecast:lookup'') ps,
              headers = [(''Content-Type'', JStr ''application/json'')],
              body = None\<rparr>)"

section \<open>Running an adapter\<close>

text \<open>The tools, in the order the sections above present them. \<open>ComputeInsights\<close>
  is the \<open>compute_insights\<close> adapter that stands alone in its file,
  \<open>ComputeInsights2\<close> the one that shares a file with \<open>get_heatmap_tiles\<close>.\<close>

datatype tool =
    GetDirections | GetStreetView | GetRoute | GetBuildingInsights | RenderVideo
  | TextSearchPlaces | GetVideo | ValidateAddress | GeocodeAddress | ComputeInsights
  | QueryAutocomplete | ProvideValidationFeedback | GetRouteMatrix | GetPlacePhoto
  | GetHeatmapTiles | ComputeInsights2 | GetHourlyWeather | Geolocate | GetDataLayers
  | GetPlaceDetails | GetElevation | DistanceMatrix | GetStreetViewMetadata
  | AutocompletePlaces | GetForecast

fun request_of :: "tool \<Rightarrow> env \<Rightarrow> args \<Rightarrow> abort + request" where
  "request_of GetDirections = get_directions_request"
| "request_of GetStreetView = get_street_view_request"
| "request_of GetRoute = get_route_request"
| "request_of GetBuildingInsights = get_building_insights_request"
| "request_of RenderVideo = render_video_request"
| "request_of TextSearchPlaces = text_search_places_request"
| "request_of GetVideo = get_video_request"
| "request_of ValidateAddress = validate_address_request"
| "request_of GeocodeAddress = geocode_address_request"
| "request_of ComputeInsights = compute_insights_request"
| "request_of QueryAutocomplete = query_autocomplete_request"
| "request_of ProvideValidationFeedback = provide_validation_feedback_request"
| "request_of GetRouteMatrix = get_route_matrix_request"
| "request_of GetPlacePhoto = get_place_photo_request"
| "request_of GetHeatmapTiles = get_heatmap_tiles_request"
| "request_of ComputeInsights2 = compute_insights2_request"
| "request_of GetHourlyWeather = get_hourly_weather_request"
| "request_of Geolocate = geolocate_request"
| "request_of GetDataLayers = get_data_layers_request"
| "request_of GetPlaceDetails = get_place_details_request"
| "request_of GetElevation = get_elevation_request"
| "request_of DistanceMatrix = distance_matrix_request"
| "request_of GetStreetViewMetadata = get_street_view_metadata_request"
| "request_of AutocompletePlaces = autocomplete_places_request"
| "request_of GetForecast = get_forecast_request"

text \<open>How an adapter reads the response: \<^verbatim>\<open>response.json()\<close>,
  \<^verbatim>\<open>response.text()\<close> (\<open>get_heatmap_tiles\<close>) or
  \<^verbatim>\<open>response.buffer()\<close> (the two image adapters). The modules import no
  fetch of their own: \<^verbatim>\<open>fetch\<close> is the global one, and its responses have
  no \<^verbatim>\<open>buffer\<close> method, so that call throws a TypeError.\<close>

datatype decoder = JsonBody | TextBody | BufferBody

fun decoder_of :: "tool \<Rightarrow> decoder" where
  "decoder_of GetStreetView = BufferBody"
| "decoder_of GetPlacePhoto = BufferBody"
| "decoder_of GetHeatmapTiles = TextBody"
| "decoder_of t = JsonBody"

text \<open>The first argument of \<^verbatim>\<open>console.error\<close> in the catch clause, and the
  text in front of the message in what the catch clause returns or throws.\<close>

fun log_label :: "tool \<Rightarrow> string" where
  "log_label GetDirections = ''Error fetching directions:''"
| "log_label GetStreetView = ''Error retrieving Street View image:''"
| "log_label GetRoute = ''Error getting route:''"
| "log_label GetBuildingInsights = ''Error fetching building insights:''"
| "log_label RenderVideo = ''Error rendering video:''"
| "log_label TextSearchPlaces = ''Error performing text search:''"
| "log_label GetVideo = ''Error retrieving video:''"
| "log_label ValidateAddress = ''Error validating address:''"
| "log_label GeocodeAddress = ''Error geocoding address:''"
| "log_label ComputeInsights = ''Error computing insights:''"
| "log_label QueryAutocomplete = ''Error querying autocomplete:''"
| "log_label ProvideValidationFeedback = ''Error providing validation feedback:''"
| "log_label GetRouteMatrix = ''Error getting route matrix:''"
| "log_label GetPlacePhoto = ''Error retrieving place photo:''"
| "log_label GetHeatmapTiles = ''Error fetching heatmap tiles:''"
| "log_label ComputeInsights2 = ''Error computing insights:''"
| "log_label GetHourlyWeather = ''Error retrieving hourly historical weather data:''"
| "log_label Geolocate = ''Error geolocating:''"
| "log_label GetDataLayers = ''Error getting data layers:''"
| "log_label GetPlaceDetails = ''Error getting place details:''"
| "log_label GetElevation = ''Error fetching elevation data:''"
| "log_label DistanceMatrix = ''Error calculating distance matrix:''"
| "log_label GetStreetViewMetadata = ''Error retrieving Street View metadata:''"
| "log_label AutocompletePlaces = ''Error performing autocomplete:''"
| "log_label GetForecast = ''Error getting pollen forecast:''"

fun error_context :: "tool \<Rightarrow> string" where
  "error_context GetDirections = ''An error occurred while fetching directions: ''"
| "error_context GetStreetView = ''An error occurred while retrieving the Street View image: ''"
| "error_context GetRoute = ''An error occurred while getting the route: ''"
| "error_context GetBuildingInsights = ''An error occurred while fetching building insights: ''"
| "error_context RenderVideo = ''An error occurred while rendering the video: ''"
| "error_context TextSearchPlaces = ''An error occurred while performing the text search: ''"
| "error_context GetVideo = ''An error occurred while retrieving the video: ''"
| "error_context ValidateAddress = ''An error occurred while validating the address: ''"
| "error_context GeocodeAddress = ''An error occurred while geocoding the address: ''"
| "error_context ComputeInsights = ''An error occurred while computing insights: ''"
| "error_context QueryAutocomplete = ''An error occurred while querying autocomplete: ''"
| "error_context ProvideValidationFeedback = ''An error occurred while providing validation feedback: ''"
| "error_context GetRouteMatrix = ''An error occurred while getting the route matrix: ''"
| "error_context GetPlacePhoto = ''An error occurred while retrieving the place photo: ''"
| "error_context GetHeatmapTiles = ''An error occurred while fetching heatmap tiles: ''"
| "error_context ComputeInsights2 = ''An error occurred while computing insights: ''"
| "error_context GetHourlyWeather = ''An error occurred while retrieving weather data: ''"
| "error_context Geolocate = ''An error occurred while geolocating: ''"
| "error_context GetDataLayers = ''An error occurred while getting data layers: ''"
| "error_context GetPlaceDetails = ''An error occurred while getting place details: ''"
| "error_context GetElevation = ''An error occurred while fetching elevation data: ''"
| "error_context DistanceMatrix = ''An error occurred while calculating the distance matrix: ''"
| "error_context GetStreetViewMetadata = ''An error occurred while retrieving Street View metadata: ''"
| "error_context AutocompletePlaces = ''An error occurred while performing autocomplete: ''"
| "error_context GetForecast = ''An error occurred while getting the pollen forecast: ''"

subsection \<open>The try block after the request is built\<close>

text \<open>The Error thrown inside \<^verbatim>\<open>if (!response.ok) { ... }\<close>. The JSON
  adapters parse the error body first, so a body that does not parse throws the
  parser's SyntaxError instead; \<^verbatim>\<open>new Error(undefined)\<close> has the empty
  message.\<close>

fun status_error :: "tool \<Rightarrow> response \<Rightarrow> string" where
  "status_error GetPlacePhoto r = ''Error: '' @ digits (status r) @ '' '' @ statusText r"
| "status_error t r = ''HTTP error! status: '' @ digits (status r)"

definition not_ok_error :: "tool \<Rightarrow> response \<Rightarrow> string" where
  "not_ok_error t r =
     (case decoder_of t of
        JsonBody \<Rightarrow>
          (case body_json r of
             Inl syntax_error \<Rightarrow> syntax_error
           | Inr errorData \<Rightarrow> (case stringify errorData of None \<Rightarrow> [] | Some s \<Rightarrow> s))
      | TextBody \<Rightarrow> body_text r
      | BufferBody \<Rightarrow> status_error t r)"

text \<open>What an async function settles to: it resolves to a value, or it rejects with an
  Error, given by its message.\<close>

datatype outcome = Resolved jsval | Rejected string

definition read_body :: "tool \<Rightarrow> response \<Rightarrow> string + outcome" where
  "read_body t r =
     (case decoder_of t of
        JsonBody \<Rightarrow>
          (case body_json r of Inl syntax_error \<Rightarrow> Inl syntax_error | Inr data \<Rightarrow> Inr (Resolved data))
      | TextBody \<Rightarrow> Inr (Resolved (JStr (body_text r)))
      | BufferBody \<Rightarrow> Inl ''response.buffer is not a function'')"

fun after_fetch :: "tool \<Rightarrow> fetch_outcome \<Rightarrow> string + outcome" where
  "after_fetch t (NetworkError m) = Inl m"
| "after_fetch t (Response r) = (if \<not> ok r then Inl (not_ok_error t r) else read_body t r)"

text \<open>The catch clause. Every throw site of the try blocks throws an Error object, so
  \<^verbatim>\<open>error instanceof Error\<close> holds and the message is
  \<^verbatim>\<open>error.message\<close>. The image adapters throw a new Error; all others
  return the object \<^verbatim>\<open>{ error: ... }\<close>.\<close>

definition catch_clause :: "tool \<Rightarrow> string \<Rightarrow> outcome" where
  "catch_clause t m =
     (if decoder_of t = BufferBody then Rejected (error_context t @ m)
      else Resolved (JObj [(''error'', JStr (error_context t @ m))]))"

text \<open>One run of an adapter: the requests it handed to \<^verbatim>\<open>fetch\<close>, the lines
  it wrote with \<^verbatim>\<open>console.error\<close> (label and message) and what the call
  settled to.\<close>

record run =
  issued :: "request list"
  logged :: "(string \<times> string) list"
  result :: outcome

definition caught :: "tool \<Rightarrow> request list \<Rightarrow> string \<Rightarrow> run" where
  "caught t reqs m = \<lparr>issued = reqs, logged = [(log_label t, m)], result = catch_clause t m\<rparr>"

definition executeFunction :: "tool \<Rightarrow> env \<Rightarrow> args \<Rightarrow> network \<Rightarrow> run" where
  "executeFunction t env a net =
     (case request_of t env a of
        Inl (BeforeTry m) \<Rightarrow> \<lparr>issued = [], logged = [], result = Rejected m\<rparr>
      | Inl (InTry m) \<Rightarrow> caught t [] m
      | Inr req \<Rightarrow>
          (case after_fetch t (net req) of
             Inl m \<Rightarrow> caught t [req] m
           | Inr out \<Rightarrow> \<lparr>issued = [req], logged = [], result = out\<rparr>))"

section \<open>Observations on a request\<close>

text \<open>\<^verbatim>\<open>URLSearchParams.getAll(k)\<close>: the values appended under the name
  \<open>k\<close>, in order.\<close>

definition getAll :: "string \<Rightarrow> params \<Rightarrow> string list" where
  "getAll k ps = map snd (filter (\<lambda>kv. fst kv = k) ps)"

text \<open>What one statement appends when it does not throw, and when it throws.\<close>

fun emitted :: "step \<Rightarrow> params" where
  "emitted (Append k v) = [(k, to_str v)]"
| "emitted (AppendIf k v) = (if truthy v then [(k, to_str v)] else [])"
| "emitted (AppendString k v) = [(k, to_str v)]"
| "emitted (AppendStringIf k v) = (if truthy v then [(k, to_str v)] else [])"

fun throws :: "step \<Rightarrow> bool" where
  "throws (Append k v) = unprintable v"
| "throws (AppendIf k v) = (truthy v \<and> unprintable v)"
| "throws (AppendString k v) = (v = JUndefined \<or> v = JNull \<or> unprintable v)"
| "throws (AppendStringIf k v) = (truthy v \<and> unprintable v)"

text \<open>How the receiving server reads the query of a URL string: the text between the
  first \<^verbatim>\<open>?\<close> and the fragment, split at \<^verbatim>\<open>&\<close>, each piece split at
  its first \<^verbatim>\<open>=\<close> and form-decoded (the parser that is inverse to
  \<open>form_serialize\<close>).\<close>

definition query_string :: "string \<Rightarrow> string" where
  "query_string u = drop 1 (dropWhile (\<lambda>c. c \<noteq> CHR ''?'') (takeWhile (\<lambda>c. c \<noteq> CHR ''#'') u))"

fun split_on :: "char \<Rightarrow> string \<Rightarrow> string list" where
  "split_on c [] = [[]]"
| "split_on c (x # xs) =
     (if x = c then [] # split_on c xs
      else (case split_on c xs of [] \<Rightarrow> [[x]] | w # ws \<Rightarrow> (x # w) # ws))"

definition hex_value :: "char \<Rightarrow> nat option" where
  "hex_value c =
     (let n = (of_char c :: nat)
      in if 48 \<le> n \<and> n \<le> 57 then Some (n - 48)
         else if 65 \<le> n \<and> n \<le> 70 then Some (n - 55)
         else if 97 \<le> n \<and> n \<le> 102 then Some (n - 87)
         else None)"

fun form_decode :: "string \<Rightarrow> string" where
  "form_decode [] = []"
| "form_decode (c # cs) =
     (if c = CHR ''+'' then CHR '' '' # form_decode cs
      else if c = CHR ''%'' then
        (case cs of
           h # l # rest \<Rightarrow>
             (case (hex_value h, hex_value l) of
                (Some hi, Some lo) \<Rightarrow> char_of (16 * hi + lo) # form_decode rest
              | _ \<Rightarrow> c # form_decode cs)
         | _ \<Rightarrow> c # form_decode cs)
      else c # form_decode cs)"

definition form_parse :: "string \<Rightarrow> params" where
  "form_parse q =
     map (\<lambda>piece. (form_decode (takeWhile (\<lambda>c. c \<noteq> CHR ''='') piece),
                    form_decode (drop 1 (dropWhile (\<lambda>c. c \<noteq> CHR ''='') piece))))
       (filter (\<lambda>piece. piece \<noteq> []) (split_on CHR ''&'' q))"

definition query_params :: "string \<Rightarrow> params" where
  "query_params u = form_parse (query_string u)"

text \<open>The three kinds of failure of a request that was issued: the network fails, the
  upstream answers outside 200..299, or the body does not decode (only
  \<^verbatim>\<open>response.json()\<close> can fail to decode).\<close>

fun failed :: "tool \<Rightarrow> fetch_outcome \<Rightarrow> bool" where
  "failed t (NetworkError m) = True"
| "failed t (Response r) = (\<not> ok r \<or> (decoder_of t = JsonBody \<and> isl (body_json r)))"

text \<open>The adapters that send the key in the \<^verbatim>\<open>X-Goog-Api-Key\<close> header; all
  others put it in the query.\<close>

definition key_in_header :: "tool \<Rightarrow> bool" where
  "key_in_header t =
     (t \<in> {GetRoute, TextSearchPlaces, ComputeInsights, ComputeInsights2, GetRouteMatrix,
            GetPlaceDetails})"

subsection \<open>The declared optional parameters\<close>

text \<open>From each tool definition: the names under \<^verbatim>\<open>properties\<close> that are not
  listed under \<^verbatim>\<open>required\<close>.\<close>

fun optional_fields :: "tool \<Rightarrow> string list" where
  "optional_fields GetDirections =
     [''mode'', ''language'', ''units'', ''departure_time'', ''arrival_time'', ''alternatives'',
      ''avoid'', ''waypoints'', ''region'', ''traffic_model'']"
| "optional_fields GetStreetView =
     [''fov'', ''heading'', ''location'', ''pano'', ''pitch'', ''radius'', ''return_error_code'',
      ''signature'', ''source'']"
| "optional_fields TextSearchPlaces =
     [''includedType'', ''languageCode'', ''locationBias'', ''locationRestriction'', ''evOptions'',
      ''minRating'', ''openNow'', ''pageSize'', ''pageToken'', ''priceLevels'', ''rankPreference'',
      ''regionCode'', ''strictTypeFiltering'']"
| "optional_fields GeocodeAddress =
     [''bounds'', ''components'', ''latlng'', ''place_id'', ''language'', ''region'']"
| "optional_fields QueryAutocomplete = [''offset'', ''location'', ''radius'', ''language'']"
| "optional_fields GetRouteMatrix = [''travelMode'', ''routingPreference'']"
| "optional_fields GetPlacePhoto = [''maxheight'', ''maxwidth'']"
| "optional_fields GetHourlyWeather =
     [''unitsSystem'', ''pageSize'', ''pageToken'', ''hours'', ''languageCode'']"
| "optional_fields Geolocate = [''considerIp'']"
| "optional_fields GetDataLayers =
     [''radiusMeters'', ''view'', ''requiredQuality'', ''pixelSizeMeters'']"
| "optional_fields GetPlaceDetails = [''languageCode'', ''regionCode'', ''sessionToken'']"
| "optional_fields GetElevation = [''path'', ''samples'']"
| "optional_fields DistanceMatrix =
     [''mode'', ''units'', ''language'', ''departure_time'', ''arrival_time'', ''avoid'', ''region'',
      ''traffic_model'', ''transit_mode'', ''transit_routing_preference'']"
| "optional_fields GetStreetViewMetadata =
     [''heading'', ''pano'', ''pitch'', ''radius'', ''return_error_code'', ''signature'', ''size'',
      ''source'']"
| "optional_fields AutocompletePlaces =
     [''sessiontoken'', ''components'', ''strictbounds'', ''offset'', ''origin'', ''location'',
      ''radius'', ''types'', ''language'', ''region'']"
| "optional_fields t = []"

text \<open>The defaults that the destructuring pattern of \<^verbatim>\<open>executeFunction\<close>
  gives to optional parameters.\<close>

fun defaults :: "tool \<Rightarrow> (string \<times> jsval) list" where
  "defaults GetDirections =
     [(''mode'', JStr ''driving''), (''language'', JStr ''en''), (''units'', JStr ''metric''),
      (''alternatives'', JBool False), (''traffic_model'', JStr ''best_guess'')]"
| "defaults GetStreetView =
     [(''fov'', JNum 90), (''pitch'', JNum 0), (''radius'', JNum 50),
      (''return_error_code'', JBool False)]"
| "defaults GeocodeAddress = [(''language'', JStr ''en''), (''region'', JStr ''en'')]"
| "defaults QueryAutocomplete = [(''language'', JStr ''en'')]"
| "defaults GetRouteMatrix =
     [(''travelMode'', JStr ''DRIVE''), (''routingPreference'', JStr ''TRAFFIC_AWARE'')]"
| "defaults GetHourlyWeather =
     [(''unitsSystem'', JStr ''METRIC''), (''pageSize'', JNum 24), (''hours'', JNum 24),
      (''languageCode'', JStr ''en'')]"
| "defaults Geolocate = [(''considerIp'', JBool False)]"
| "defaults GetDataLayers =
     [(''radiusMeters'', JNum 100), (''view'', JStr ''FULL_LAYERS''),
      (''requiredQuality'', JStr ''HIGH''), (''pixelSizeMeters'', JReal ''0.5'')]"
| "defaults DistanceMatrix =
     [(''mode'', JStr ''driving''), (''units'', JStr ''metric''), (''language'', JStr ''en''),
      (''region'', JStr ''en''), (''traffic_model'', JStr ''best_guess'')]"
| "defaults GetStreetViewMetadata = [(''radius'', JNum 50), (''return_error_code'', JBool False)]"
| "defaults AutocompletePlaces = [(''language'', JStr ''en''), (''region'', JStr ''en'')]"
| "defaults t = []"

text \<open>The optional parameters that an adapter appends to the query under
  \<^verbatim>\<open>if (parameter)\<close>; the other optional parameters of a query are appended
  unconditionally.\<close>

fun guarded :: "tool \<Rightarrow> string list" where
  "guarded GetDirections =
     [''departure_time'', ''arrival_time'', ''alternatives'', ''avoid'', ''waypoints'', ''region'',
      ''traffic_model'']"
| "guarded GetStreetView =
     [''fov'', ''heading'', ''location'', ''pano'', ''pitch'', ''radius'', ''return_error_code'',
      ''signature'', ''source'']"
| "guarded GeocodeAddress = [''bounds'', ''components'', ''latlng'', ''place_id'']"
| "guarded QueryAutocomplete = [''offset'', ''location'', ''radius'']"
| "guarded GetPlacePhoto = [''maxheight'', ''maxwidth'']"
| "guarded GetHourlyWeather = [''pageToken'']"
| "guarded GetPlaceDetails = [''languageCode'', ''regionCode'', ''sessionToken'']"
| "guarded GetElevation = [''path'', ''samples'']"
| "guarded DistanceMatrix =
     [''departure_time'', ''arrival_time'', ''avoid'', ''region'', ''traffic_model'',
      ''transit_mode'', ''transit_routing_preference'']"
| "guarded GetStreetViewMetadata =
     [''heading'', ''pano'', ''pitch'', ''radius'', ''return_error_code'', ''signature'', ''size'',
      ''source'']"
| "guarded AutocompletePlaces =
     [''sessiontoken'', ''components'', ''strictbounds'', ''offset'', ''origin'', ''location'',
      ''radius'', ''types'', ''language'', ''region'']"
| "guarded t = []"

text \<open>The adapters that send their arguments as a JSON body
  (\<^verbatim>\<open>method: 'POST'\<close>); all others send them in the URL.\<close>

definition posts_json :: "tool \<Rightarrow> bool" where
  "posts_json t =
     (t \<in> {GetRoute, RenderVideo, TextSearchPlaces, ValidateAddress, ComputeInsights,
            ProvideValidationFeedback, GetRouteMatrix, ComputeInsights2, Geolocate})"

text \<open>The text of a JSON object, given its members in order as pairs of a name (a plain
  identifier, which needs no escape) and the JSON text of the value.\<close>

definition json_object_text :: "(string \<times> string) list \<Rightarrow> string" where
  "json_object_text members =
     ''{'' @ drop 1 (concat (map (\<lambda>kv. '','' @ [CHR 0x22] @ fst kv @ [CHR 0x22] @ '':'' @ snd kv)
                                members))
         @ ''}''"

text \<open>A network that gives every request the same outcome.\<close>

definition answering :: "fetch_outcome \<Rightarrow> network" where
  "answering out req = out"

section \<open>Auxiliary facts\<close>

lemma append_step_Inr:
  "append_step ps st = Inr ps' \<longleftrightarrow> \<not> throws st \<and> ps' = ps @ emitted st"
  by (cases st) (auto simp: String_of_def toString_def split: jsval.splits)

lemma append_step_total: "\<not> throws st \<Longrightarrow> append_step ps st = Inr (ps @ emitted st)"
  by (simp add: append_step_Inr)

lemma append_steps_Inr:
  "append_steps ps sts = Inr ps' \<Longrightarrow> ps' = ps @ concat (map emitted sts)"
proof (induction sts arbitrary: ps)
  case Nil
  then show ?case by simp
next
  case (Cons st sts)
  from Cons.prems obtain ps1 where 1: "append_step ps st = Inr ps1"
    and 2: "append_steps ps1 sts = Inr ps'"
    by (auto split: sum.splits)
  from Cons.IH[OF 2] have "ps' = ps1 @ concat (map emitted sts)" .
  moreover have "ps1 = ps @ emitted st"
    using 1 by (simp add: append_step_Inr)
  ultimately show ?case by simp
qed

lemma append_steps_total:
  "list_all (\<lambda>st. \<not> throws st) sts \<Longrightarrow>
     append_steps ps sts = Inr (ps @ concat (map emitted sts))"
proof (induction sts arbitrary: ps)
  case Nil
  then show ?case by simp
next
  case (Cons st sts)
  then show ?case
    by (simp add: append_step_total)
qed

lemma getAll_append [simp]: "getAll k (ps @ qs) = getAll k ps @ getAll k qs"
  by (simp add: getAll_def)

lemma getAll_Nil [simp]: "getAll k [] = []"
  by (simp add: getAll_def)

lemma getAll_Cons [simp]:
  "getAll k ((k', v) # ps) = (if k' = k then v # getAll k ps else getAll k ps)"
  by (simp add: getAll_def)

text \<open>A key made of letters, digits and \<^verbatim>\<open>* - . _\<close> is serialized as it is.\<close>

lemma form_encode_safe: "list_all form_safe s \<Longrightarrow> form_encode s = s"
  by (induction s) (auto simp: form_encode_def form_encode_byte_def form_safe_def)

text \<open>A run that issued a request built it without throwing.\<close>

lemma issued_single:
  "issued (executeFunction t env a net) = [req] \<Longrightarrow> request_of t env a = Inr req"
  by (auto simp: executeFunction_def caught_def split: sum.splits abort.splits)

lemma sublist_status_error: "sublist (digits (status r)) (status_error t r)"
proof -
  have "status_error t r = ''Error: '' @ digits (status r) @ ('' '' @ statusText r)
      \<or> status_error t r = ''HTTP error! status: '' @ digits (status r) @ []"
    by (cases t) simp_all
  then show ?thesis
    by (metis sublist_appendI)
qed

lemma issued_of_request:
  "request_of t env a = Inr req \<Longrightarrow> issued (executeFunction t env a net) = [req]"
  by (simp add: executeFunction_def caught_def split: sum.splits)

lemma append_steps_succeeds:
  "(\<exists>ps'. append_steps ps sts = Inr ps') \<longleftrightarrow> list_all (\<lambda>st. \<not> throws st) sts"
proof
  assume "list_all (\<lambda>st. \<not> throws st) sts"
  then show "\<exists>ps'. append_steps ps sts = Inr ps'"
    by (simp add: append_steps_total)
next
  assume "\<exists>ps'. append_steps ps sts = Inr ps'"
  then show "list_all (\<lambda>st. \<not> throws st) sts"
  proof (induction sts arbitrary: ps)
    case Nil
    then show ?case by simp
  next
    case (Cons st sts)
    then obtain ps' where r: "append_steps ps (st # sts) = Inr ps'" by blast
    then obtain ps1 where 1: "append_step ps st = Inr ps1"
      and 2: "append_steps ps1 sts = Inr ps'"
      by (auto split: sum.splits)
    have "\<not> throws st"
      using 1 by (simp add: append_step_Inr)
    moreover have "list_all (\<lambda>st. \<not> throws st) sts"
      using Cons.IH 2 by blast
    ultimately show ?case by simp
  qed
qed

lemma join_snoc: "join sep (xs @ [x]) = (if xs = [] then x else join sep xs @ sep @ x)"
  by (induction sep xs rule: join.induct) auto

lemma form_serialize_snoc:
  "form_serialize (ps @ [(k, v)]) =
     (if ps = [] then [] else form_serialize ps @ ''&'') @ form_encode k @ ''='' @ form_encode v"
  by (simp add: form_serialize_def join_snoc)

lemma href_snoc_suffix: "suffix (form_encode k @ ''='' @ form_encode v) (href e (ps @ [(k, v)]))"
proof -
  have "href e (ps @ [(k, v)]) =
          (e @ ''?'' @ (if ps = [] then [] else form_serialize ps @ ''&''))
          @ (form_encode k @ ''='' @ form_encode v)"
    by (simp add: href_def form_serialize_snoc)
  then show ?thesis
    by (metis suffixI)
qed

lemma key_undefined_encoded:
  "form_encode ''key'' @ ''='' @ form_encode (to_str JUndefined) = ''key=undefined''"
  by (simp add: form_encode_def form_encode_byte_def form_safe_def)

lemma unset_key_with_params:
  assumes "with_params sts' mk' = Inr req'"
    and "map throws sts = map throws sts'"
    and "sts \<noteq> []"
    and "last sts = Append ''key'' JUndefined"
    and "\<And>ps. url (mk ps) = href e ps @ sfx"
    and "sfx = [] \<or> suffix ''key=undefined'' sfx"
  shows "\<exists>req. with_params sts mk = Inr req \<and> suffix ''key=undefined'' (url req)"
proof -
  from assms(1) have "\<exists>ps'. append_steps [] sts' = Inr ps'"
    by (auto simp: with_params_def split: sum.splits)
  then have "list_all (\<lambda>st. \<not> throws st) sts'"
    by (simp add: append_steps_succeeds)
  then have "list_all (\<lambda>b. \<not> b) (map throws sts')"
    by (simp add: list_all_iff)
  then have "list_all (\<lambda>b. \<not> b) (map throws sts)"
    using assms(2) by simp
  then have all: "list_all (\<lambda>st. \<not> throws st) sts"
    by (simp add: list_all_iff)
  then have run: "append_steps [] sts = Inr (concat (map emitted sts))"
    using append_steps_total[of sts "[]"] by simp
  have "sts = butlast sts @ [Append ''key'' JUndefined]"
    using assms(3,4) by (metis append_butlast_last_id)
  then have "concat (map emitted sts) =
               concat (map emitted (butlast sts)) @ [(''key'', to_str JUndefined)]"
    by (metis (no_types) concat_append map_append concat.simps list.simps(8,9) emitted.simps(1) append_Nil2)
  then have "suffix ''key=undefined'' (href e (concat (map emitted sts)))"
    using href_snoc_suffix[of "''key''" "to_str JUndefined" e "concat (map emitted (butlast sts))"]
    by (simp only: key_undefined_encoded)
  then have "suffix ''key=undefined'' (href e (concat (map emitted sts)) @ sfx)"
    using assms(6) by (auto simp: suffix_def)
  then show ?thesis
    using run assms(5) by (simp add: with_params_def)
qed

lemma unset_key_request:
  assumes "request_of t (Some k) a = Inr req'"
  shows "\<exists>req. request_of t None a = Inr req
      \<and> (if key_in_header t then (''X-Goog-Api-Key'', JUndefined) \<in> set (headers req)
         else if t = GetForecast
           then (\<exists>ps. url req = href ''https://pollen.googleapis.com/v1/forecast:lookup'' ps
                      \<and> ''key'' \<notin> fst ` set ps)
         else suffix ''key=undefined'' (url req))"
proof (cases t)
  case GetDirections
  have "\<exists>req. get_directions_request None a = Inr req \<and> suffix ''key=undefined'' (url req)"
    unfolding get_directions_request_def
    by (rule unset_key_with_params[where sfx="[]",
          OF assms[unfolded GetDirections request_of.simps get_directions_request_def]])
       (simp_all add: get_directions_params_def Let_def api_key_def)
  then show ?thesis
    using GetDirections by (simp add: key_in_header_def)
next
  case GetStreetView
  have "\<exists>req. get_street_view_request None a = Inr req \<and> suffix ''key=undefined'' (url req)"
    unfolding get_street_view_request_def
    by (rule unset_key_with_params[where sfx="[]",
          OF assms[unfolded GetStreetView request_of.simps get_street_view_request_def]])
       (simp_all add: get_street_view_params_def Let_def api_key_def)
  then show ?thesis
    using GetStreetView by (simp add: key_in_header_def)
next
  case GetBuildingInsights
  have "\<exists>req. get_building_insights_request None a = Inr req \<and> suffix ''key=undefined'' (url req)"
    unfolding get_building_insights_request_def
    by (rule unset_key_with_params[where sfx="[]",
          OF assms[unfolded GetBuildingInsights request_of.simps get_building_insights_request_def]])
       (simp_all add: get_building_insights_params_def Let_def api_key_def)
  then show ?thesis
    using GetBuildingInsights by (simp add: key_in_header_def)
next
  case GeocodeAddress
  have "\<exists>req. geocode_address_request None a = Inr req \<and> suffix ''key=undefined'' (url req)"
    unfolding geocode_address_request_def
    by (rule unset_key_with_params[where sfx="[]",
          OF assms[unfolded GeocodeAddress request_of.simps geocode_address_request_def]])
       (simp_all add: geocode_address_params_def Let_def api_key_def)
  then show ?thesis
    using GeocodeAddress by (simp add: key_in_header_def)
next
  case QueryAutocomplete
  have "\<exists>req. query_autocomplete_request None a = Inr req \<and> suffix ''key=undefined'' (url req)"
    unfolding query_autocomplete_request_def
    by (rule unset_key_with_params[where sfx="[]",
          OF assms[unfolded QueryAutocomplete request_of.simps query_autocomplete_request_def]])
       (simp_all add: query_autocomplete_params_def Let_def api_key_def)
  then show ?thesis
    using QueryAutocomplete by (simp add: key_in_header_def)
next
  case GetPlacePhoto
  have "\<exists>req. get_place_photo_request None a = Inr req \<and> suffix ''key=undefined'' (url req)"
    unfolding get_place_photo_request_def
    by (rule unset_key_with_params[where sfx="[]",
          OF assms[unfolded GetPlacePhoto request_of.simps get_place_photo_request_def]])
       (simp_all add: get_place_photo_params_def Let_def api_key_def)
  then show ?thesis
    using GetPlacePhoto by (simp add: key_in_header_def)
next
  case GetHourlyWeather
  have "\<exists>req. get_hourly_weather_request None a = Inr req \<and> suffix ''key=undefined'' (url req)"
    unfolding get_hourly_weather_request_def
    by (rule unset_key_with_params[where sfx="[]",
          OF assms[unfolded GetHourlyWeather request_of.simps get_hourly_weather_request_def]])
       (simp_all add: get_hourly_weather_params_def Let_def api_key_def)
  then show ?thesis
    using GetHourlyWeather by (simp add: key_in_header_def)
next
  case GetDataLayers
  have "\<exists>req. get_data_layers_request None a = Inr req \<and> suffix ''key=undefined'' (url req)"
    unfolding get_data_layers_request_def
    by (rule unset_key_with_params[where sfx="[]",
          OF assms[unfolded GetDataLayers request_of.simps get_data_layers_request_def]])
       (simp_all add: get_data_layers_params_def Let_def api_key_def)
  then show ?thesis
    using GetDataLayers by (simp add: key_in_header_def)
next
  case GetElevation
  have "\<exists>req. get_elevation_request None a = Inr req \<and> suffix ''key=undefined'' (url req)"
    unfolding get_elevation_request_def
    by (rule unset_key_with_params[where sfx="[]",
          OF assms[unfolded GetElevation request_of.simps get_elevation_request_def]])
       (simp_all add: get_elevation_params_def Let_def api_key_def)
  then show ?thesis
    using GetElevation by (simp add: key_in_header_def)
next
  case DistanceMatrix
  have "\<exists>req. distance_matrix_request None a = Inr req \<and> suffix ''key=undefined'' (url req)"
    unfolding distance_matrix_request_def
    by (rule unset_key_with_params[where sfx="[]",
          OF assms[unfolded DistanceMatrix request_of.simps distance_matrix_request_def]])
       (simp_all add: distance_matrix_params_def Let_def api_key_def)
  then show ?thesis
    using DistanceMatrix by (simp add: key_in_header_def)
next
  case GetStreetViewMetadata
  have "\<exists>req. get_street_view_metadata_request None a = Inr req \<and> suffix ''key=undefined'' (url req)"
    unfolding get_street_view_metadata_request_def
    by (rule unset_key_with_params[where sfx="[]",
          OF assms[unfolded GetStreetViewMetadata request_of.simps get_street_view_metadata_request_def]])
       (simp_all add: get_street_view_metadata_params_def Let_def api_key_def)
  then show ?thesis
    using GetStreetViewMetadata by (simp add: key_in_header_def)
next
  case AutocompletePlaces
  have "\<exists>req. autocomplete_places_request None a = Inr req \<and> suffix ''key=undefined'' (url req)"
    unfolding autocomplete_places_request_def
    by (rule unset_key_with_params[where sfx="[]",
          OF assms[unfolded AutocompletePlaces request_of.simps autocomplete_places_request_def]])
       (simp_all add: autocomplete_places_params_def Let_def api_key_def)
  then show ?thesis
    using AutocompletePlaces by (simp add: key_in_header_def)
next
  case GetVideo
  from assms obtain ps' where "append_steps [] (get_video_params (Some k) a) = Inr ps'"
    unfolding GetVideo request_of.simps get_video_request_def Let_def
    by (auto simp: with_params_def split: sum.splits)
  then have "list_all (\<lambda>st. \<not> throws st) (get_video_params (Some k) a)"
    using append_steps_succeeds by blast
  then have "list_all (\<lambda>st. \<not> throws st) (get_video_params None a)"
    by (simp add: get_video_params_def Let_def)
  then have "append_steps [] (get_video_params None a) =
      Inr (concat (map emitted (get_video_params None a)))"
    using append_steps_total[of "get_video_params None a" "[]"] by simp
  then show ?thesis
    using GetVideo
    by (simp add: key_in_header_def get_video_request_def with_params_def Let_def api_key_def
          suffix_Cons suffix_appendI)
next
  case GetForecast
  from assms obtain ps' where "append_steps [] (get_forecast_params (Some k) a) = Inr ps'"
    unfolding GetForecast request_of.simps get_forecast_request_def
    by (auto simp: with_params_def split: sum.splits)
  then have "list_all (\<lambda>st. \<not> throws st) (get_forecast_params (Some k) a)"
    using append_steps_succeeds by blast
  then have "list_all (\<lambda>st. \<not> throws st) (get_forecast_params None a)"
    by (simp add: get_forecast_params_def Let_def api_key_def)
  then have "append_steps [] (get_forecast_params None a) =
      Inr (concat (map emitted (get_forecast_params None a)))"
    using append_steps_total[of "get_forecast_params None a" "[]"] by simp
  then show ?thesis
    using GetForecast
    by (simp add: key_in_header_def get_forecast_request_def with_params_def)
       (rule exI[of _ "concat (map emitted (get_forecast_params None a))"],
        simp add: get_forecast_params_def Let_def api_key_def)
next
  case GetRoute
  then show ?thesis
    using assms
    by (auto simp: key_in_header_def get_route_request_def Let_def api_key_def split: sum.splits)
next
  case GetPlaceDetails
  from assms obtain placeId_text ps'
    where p: "String_of (lookup a ''placeId'') = Inr placeId_text"
      and q: "append_steps [] (get_place_details_params (Some k) a) = Inr ps'"
    unfolding GetPlaceDetails request_of.simps get_place_details_request_def Let_def
    by (auto simp: with_params_def split: sum.splits)
  have "get_place_details_params None a = get_place_details_params (Some k) a"
    by (simp add: get_place_details_params_def)
  with q have "append_steps [] (get_place_details_params None a) = Inr ps'"
    by simp
  then show ?thesis
    using GetPlaceDetails p
    by (simp add: key_in_header_def get_place_details_request_def with_params_def Let_def
          api_key_def)
next
  case RenderVideo
  then show ?thesis
    by (simp add: key_in_header_def render_video_request_def Let_def api_key_def suffix_Cons suffix_appendI)
next
  case ValidateAddress
  then show ?thesis
    by (simp add: key_in_header_def validate_address_request_def Let_def api_key_def suffix_Cons suffix_appendI)
next
  case ProvideValidationFeedback
  then show ?thesis
    by (simp add: key_in_header_def provide_validation_feedback_request_def Let_def api_key_def suffix_Cons suffix_appendI)
next
  case Geolocate
  then show ?thesis
    by (simp add: key_in_header_def geolocate_request_def Let_def api_key_def suffix_Cons suffix_appendI)
next
  case GetHeatmapTiles
  have "\<not> unprintable (lookup a ''mapType'') \<and> \<not> unprintable (lookup a ''zoom'')
      \<and> \<not> unprintable (lookup a ''x'') \<and> \<not> unprintable (lookup a ''y'')"
    using assms unfolding GetHeatmapTiles request_of.simps get_heatmap_tiles_request_def Let_def
    by (auto simp: String_of_def split: if_splits)
  with GetHeatmapTiles show ?thesis
    by (simp add: key_in_header_def get_heatmap_tiles_request_def Let_def api_key_def String_of_def
          suffix_Cons suffix_appendI)
next
  case TextSearchPlaces
  then show ?thesis
    by (simp add: key_in_header_def text_search_places_request_def Let_def api_key_def)
next
  case ComputeInsights
  then show ?thesis
    by (simp add: key_in_header_def compute_insights_request_def Let_def api_key_def)
next
  case ComputeInsights2
  then show ?thesis
    by (simp add: key_in_header_def compute_insights2_request_def Let_def api_key_def)
next
  case GetRouteMatrix
  then show ?thesis
    by (simp add: key_in_header_def get_route_matrix_request_def Let_def api_key_def)
qed

subsection \<open>The query of a URL, read back\<close>

text \<open>The form parser is inverse to the serializer, so the parameters that an adapter
  appends are the parameters that the receiver reads.\<close>

lemma below_16: "n < 16 \<Longrightarrow> n \<in> {0, 1, 2, 3, 4, 5, 6, 7, 8, 9, 10, 11, 12, 13, 14, 15::nat}"
  by simp presburger

lemma hex_value_hex_upper: "n < 16 \<Longrightarrow> hex_value (hex_upper n) = Some n"
  by (drule below_16) (auto simp: hex_upper_def hex_value_def)

lemma hex_upper_safe: "n < 16 \<Longrightarrow> form_safe (hex_upper n)"
  by (drule below_16) (auto simp: hex_upper_def form_safe_def)

lemma of_char_div_16: "(of_char c :: nat) div 16 < 16"
proof -
  have "(of_char c :: nat) < 256"
    by (metis of_char_mod_256 mod_less_divisor zero_less_numeral)
  then show ?thesis by arith
qed

lemma form_safe_plain: "form_safe c \<Longrightarrow> c \<noteq> CHR ''+'' \<and> c \<noteq> CHR ''%'' \<and> c \<noteq> CHR ''&''
    \<and> c \<noteq> CHR ''='' \<and> c \<noteq> CHR ''#'' \<and> c \<noteq> CHR ''?''"
  by (auto simp: form_safe_def)

lemma form_decode_byte: "form_decode (form_encode_byte c @ rest) = c # form_decode rest"
proof (cases "c = CHR '' ''")
  case True
  then show ?thesis by (simp add: form_encode_byte_def)
next
  case False
  show ?thesis
  proof (cases "form_safe c")
    case True
    with False form_safe_plain[OF True] show ?thesis
      by (simp add: form_encode_byte_def)
  next
    case unsafe: False
    have "char_of (16 * ((of_char c :: nat) div 16) + (of_char c :: nat) mod 16) = c"
      by simp
    with False unsafe show ?thesis
      by (simp add: form_encode_byte_def hex_value_hex_upper of_char_div_16)
  qed
qed

lemma form_decode_encode: "form_decode (form_encode s) = s"
  by (induction s) (simp_all add: form_encode_def form_decode_byte)

lemma form_encode_byte_chars:
  assumes "x \<in> set (form_encode_byte c)"
  shows "form_safe x \<or> x = CHR ''+'' \<or> x = CHR ''%''"
proof -
  have hi: "form_safe (hex_upper (of_char c div 16))"
    by (rule hex_upper_safe[OF of_char_div_16])
  have lo: "form_safe (hex_upper (of_char c mod 16))"
    by (rule hex_upper_safe) simp
  have "form_encode_byte c = ''+'' \<or> (form_encode_byte c = [c] \<and> form_safe c)
      \<or> form_encode_byte c =
          [CHR ''%'', hex_upper (of_char c div 16), hex_upper (of_char c mod 16)]"
    by (simp add: form_encode_byte_def)
  with assms hi lo show ?thesis
    by (elim disjE) auto
qed

lemma form_encode_chars:
  "x \<in> set (form_encode s) \<Longrightarrow> form_safe x \<or> x = CHR ''+'' \<or> x = CHR ''%''"
  unfolding form_encode_def by (auto dest: form_encode_byte_chars)

lemma form_encode_no_delimiter:
  "CHR ''&'' \<notin> set (form_encode s)" "CHR ''='' \<notin> set (form_encode s)"
  "CHR ''#'' \<notin> set (form_encode s)" "CHR ''?'' \<notin> set (form_encode s)"
proof -
  show "CHR ''&'' \<notin> set (form_encode s)"
    using form_encode_chars[of "CHR ''&''" s] by (auto simp: form_safe_def)
  show "CHR ''='' \<notin> set (form_encode s)"
    using form_encode_chars[of "CHR ''=''" s] by (auto simp: form_safe_def)
  show "CHR ''#'' \<notin> set (form_encode s)"
    using form_encode_chars[of "CHR ''#''" s] by (auto simp: form_safe_def)
  show "CHR ''?'' \<notin> set (form_encode s)"
    using form_encode_chars[of "CHR ''?''" s] by (auto simp: form_safe_def)
qed

lemma split_on_none: "c \<notin> set xs \<Longrightarrow> split_on c xs = [xs]"
  by (induction xs) auto

lemma split_on_first: "c \<notin> set xs \<Longrightarrow> split_on c (xs @ c # ys) = xs # split_on c ys"
  by (induction xs) auto

lemma split_on_join:
  "pieces \<noteq> [] \<Longrightarrow> list_all (\<lambda>p. c \<notin> set p) pieces \<Longrightarrow> split_on c (join [c] pieces) = pieces"
  by (induction "[c]" pieces rule: join.induct) (auto simp: split_on_none split_on_first)

lemma takeWhile_all: "c \<notin> set xs \<Longrightarrow> takeWhile (\<lambda>x. x \<noteq> c) xs = xs"
  by (induction xs) auto

lemma dropWhile_all: "c \<notin> set xs \<Longrightarrow> dropWhile (\<lambda>x. x \<noteq> c) xs = []"
  by (induction xs) auto

lemma dropWhile_first: "c \<notin> set xs \<Longrightarrow> dropWhile (\<lambda>x. x \<noteq> c) (xs @ c # ys) = c # ys"
  by (induction xs) auto

lemma takeWhile_first: "c \<notin> set xs \<Longrightarrow> takeWhile (\<lambda>x. x \<noteq> c) (xs @ c # ys) = xs"
  by (induction xs) auto

lemma parse_piece:
  "(form_decode (takeWhile (\<lambda>c. c \<noteq> CHR ''='') (form_encode k @ CHR ''='' # form_encode v)),
    form_decode (drop 1 (dropWhile (\<lambda>c. c \<noteq> CHR ''='') (form_encode k @ CHR ''='' # form_encode v))))
   = (k, v)"
  by (simp only: takeWhile_first[OF form_encode_no_delimiter(2)]
        dropWhile_first[OF form_encode_no_delimiter(2)] form_decode_encode)
     (simp add: form_decode_encode)

lemma form_parse_serialize: "form_parse (form_serialize ps) = ps"
proof (cases "ps = []")
  case True
  then show ?thesis by (simp add: form_parse_def form_serialize_def)
next
  case False
  let ?piece = "\<lambda>kv. form_encode (fst kv) @ CHR ''='' # form_encode (snd kv)"
  have clean: "list_all (\<lambda>p. CHR ''&'' \<notin> set p) (map ?piece ps)"
    by (simp add: list_all_iff form_encode_no_delimiter)
  have ser: "form_serialize ps = join ''&'' (map ?piece ps)"
    by (simp add: form_serialize_def)
  have "split_on CHR ''&'' (form_serialize ps) = map ?piece ps"
    unfolding ser using False clean by (intro split_on_join) simp_all
  moreover have "filter (\<lambda>p. p \<noteq> []) (map ?piece ps) = map ?piece ps"
    by (induction ps) auto
  ultimately have "form_parse (form_serialize ps) =
      map (\<lambda>piece. (form_decode (takeWhile (\<lambda>c. c \<noteq> CHR ''='') piece),
                    form_decode (drop 1 (dropWhile (\<lambda>c. c \<noteq> CHR ''='') piece))))
        (map ?piece ps)"
    by (simp only: form_parse_def)
  also have "\<dots> = map (\<lambda>kv. (fst kv, snd kv)) ps"
    by (simp only: map_map comp_def parse_piece)
  finally show ?thesis by simp
qed

lemma join_chars: "c \<in> set (join sep xs) \<Longrightarrow> c \<in> set sep \<or> (\<exists>x\<in>set xs. c \<in> set x)"
  by (induction sep xs rule: join.induct) auto

lemma form_serialize_no_hash: "CHR ''#'' \<notin> set (form_serialize ps)"
proof
  assume "CHR ''#'' \<in> set (form_serialize ps)"
  then have "CHR ''#'' \<in> set ''&'' \<or>
      (\<exists>x\<in>set (map (\<lambda>kv. form_encode (fst kv) @ ''='' @ form_encode (snd kv)) ps).
               CHR ''#'' \<in> set x)"
    unfolding form_serialize_def by (rule join_chars)
  then show False
    by (auto simp: form_encode_no_delimiter)
qed

lemma query_string_split:
  assumes "CHR ''?'' \<notin> set e" and "CHR ''#'' \<notin> set e" and "CHR ''#'' \<notin> set q"
  shows "query_string (e @ CHR ''?'' # q) = q"
proof -
  have "CHR ''#'' \<notin> set (e @ CHR ''?'' # q)"
    using assms(2,3) by simp
  then have "takeWhile (\<lambda>c. c \<noteq> CHR ''#'') (e @ CHR ''?'' # q) = e @ CHR ''?'' # q"
    by (rule takeWhile_all)
  then show ?thesis
    by (simp only: query_string_def dropWhile_first[OF assms(1)]) simp
qed

lemma query_string_none:
  assumes "CHR ''?'' \<notin> set e" and "CHR ''#'' \<notin> set e"
  shows "query_string e = []"
  by (simp only: query_string_def takeWhile_all[OF assms(2)] dropWhile_all[OF assms(1)]) simp

lemma query_params_href:
  assumes "CHR ''?'' \<notin> set e" and "CHR ''#'' \<notin> set e"
  shows "query_params (href e ps) = ps"
proof (cases "ps = []")
  case True
  then show ?thesis
    by (simp add: query_params_def href_def query_string_none[OF assms] form_parse_def)
next
  case False
  then have "href e ps = e @ CHR ''?'' # form_serialize ps"
    by (simp add: href_def)
  then show ?thesis
    by (simp only: query_params_def query_string_split[OF assms form_serialize_no_hash]
          form_parse_serialize)
qed

text \<open>The URL that \<open>get_place_details\<close> fetches: whatever the place id, the path
  that the parser makes of it has no \<^verbatim>\<open>?\<close> and no \<^verbatim>\<open>#\<close>, so the
  query of the URL is the assigned one.\<close>

lemma percent_encode_path_chars:
  assumes "x \<in> set (percent_encode in_path_set s)"
  shows "x \<noteq> CHR ''?'' \<and> x \<noteq> CHR ''#''"
proof -
  from assms have "\<exists>c\<in>set s. x \<in> set (if in_path_set c
                 then [CHR ''%'', hex_upper (of_char c div 16), hex_upper (of_char c mod 16)]
                 else [c])"
    unfolding percent_encode_def by (simp only: set_concat set_map) blast
  then obtain c where c: "c \<in> set s"
    and x: "x \<in> set (if in_path_set c
                 then [CHR ''%'', hex_upper (of_char c div 16), hex_upper (of_char c mod 16)]
                 else [c])"
    by blast
  have hi: "form_safe (hex_upper (of_char c div 16))"
    by (rule hex_upper_safe[OF of_char_div_16])
  have lo: "form_safe (hex_upper (of_char c mod 16))"
    by (rule hex_upper_safe) simp
  show ?thesis
  proof (cases "in_path_set c")
    case True
    with x have "x = CHR ''%'' \<or> form_safe x"
      using hi lo by auto
    then show ?thesis
      using form_safe_plain by auto
  next
    case False
    with x have "x = c" by simp
    with False show ?thesis
      by (auto simp: in_path_set_def in_query_set_def)
  qed
qed

lemma path_step_subset: "set (path_step path final b) \<subseteq> set path \<union> {b, []}"
  by (auto simp: path_step_def dest: in_set_butlastD)

lemma path_segments_subset: "set (path_segments path bs) \<subseteq> set path \<union> set bs \<union> {[]}"
proof (induction path bs rule: path_segments.induct)
  case (1 path)
  then show ?case by auto
next
  case (2 path b)
  then show ?case
    using path_step_subset[of path True b] by auto
next
  case (3 path b b' bs)
  then show ?case
    using path_step_subset[of path False b] by auto
qed

lemma query_string_middle:
  assumes "CHR ''?'' \<notin> set e" and "CHR ''#'' \<notin> set e" and "CHR ''#'' \<notin> set q"
  shows "query_string (e @ (if q = [] then [] else ''?'' @ q) @ CHR ''#'' # f) = q"
proof -
  let ?front = "e @ (if q = [] then [] else ''?'' @ q)"
  have "CHR ''#'' \<notin> set ?front"
    using assms(2,3) by simp
  then have "takeWhile (\<lambda>c. c \<noteq> CHR ''#'') (?front @ CHR ''#'' # f) = ?front"
    by (rule takeWhile_first)
  then have "query_string (?front @ CHR ''#'' # f) = query_string ?front"
    using \<open>CHR ''#'' \<notin> set ?front\<close> by (simp add: query_string_def takeWhile_all)
  also have "\<dots> = q"
  proof (cases "q = []")
    case True
    then show ?thesis using query_string_none[OF assms(1,2)] by simp
  next
    case False
    then show ?thesis using query_string_split[OF assms] by simp
  qed
  finally show ?thesis by simp
qed

lemma query_string_end:
  assumes "CHR ''?'' \<notin> set e" and "CHR ''#'' \<notin> set e" and "CHR ''#'' \<notin> set q"
  shows "query_string (e @ (if q = [] then [] else ''?'' @ q)) = q"
proof (cases "q = []")
  case True
  then show ?thesis using query_string_none[OF assms(1,2)] by simp
next
  case False
  then show ?thesis using query_string_split[OF assms] by simp
qed

lemma query_params_href_with_search:
  assumes "CHR ''?'' \<notin> set origin" and "CHR ''#'' \<notin> set origin"
    and "\<forall>segment\<in>set base_path. CHR ''?'' \<notin> set segment \<and> CHR ''#'' \<notin> set segment"
  shows "query_params (href_with_search origin base_path tail (form_serialize ps)) = ps"
proof -
  define path_text where
    "path_text = takeWhile (\<lambda>c. c \<noteq> CHR ''?'' \<and> c \<noteq> CHR ''#'') (url_input tail)"
  define path where
    "path = path_segments base_path
              (map (percent_encode in_path_set)
                 (split_where (\<lambda>c. c = CHR ''/'' \<or> c = CHR 0x5C) path_text))"
  define front where "front = origin @ concat (map (\<lambda>segment. ''/'' @ segment) path)"
  have segs: "\<forall>segment\<in>set path. CHR ''?'' \<notin> set segment \<and> CHR ''#'' \<notin> set segment"
  proof
    fix segment assume "segment \<in> set path"
    then have "segment \<in> set base_path
        \<or> segment \<in> set (map (percent_encode in_path_set)
                          (split_where (\<lambda>c. c = CHR ''/'' \<or> c = CHR 0x5C) path_text))
        \<or> segment = []"
      using path_segments_subset unfolding path_def by blast
    then show "CHR ''?'' \<notin> set segment \<and> CHR ''#'' \<notin> set segment"
      using assms(3) percent_encode_path_chars by auto
  qed
  have front: "CHR ''?'' \<notin> set front" "CHR ''#'' \<notin> set front"
    using assms(1,2) segs by (auto simp: front_def)
  have "query_string (href_with_search origin base_path tail (form_serialize ps))
          = form_serialize ps"
  proof (cases "dropWhile (\<lambda>c. c \<noteq> CHR ''#'') (url_input tail)")
    case Nil
    have "href_with_search origin base_path tail (form_serialize ps)
        = front @ (if form_serialize ps = [] then [] else ''?'' @ form_serialize ps)"
      unfolding href_with_search_def Let_def front_def path_def path_text_def Nil by simp
    then show ?thesis
      using query_string_end[OF front form_serialize_no_hash] by simp
  next
    case (Cons hash f)
    have "href_with_search origin base_path tail (form_serialize ps)
        = front @ (if form_serialize ps = [] then [] else ''?'' @ form_serialize ps)
            @ CHR ''#'' # percent_encode in_fragment_set f"
      unfolding href_with_search_def Let_def front_def path_def path_text_def Cons by simp
    then show ?thesis
      using query_string_middle[OF front form_serialize_no_hash] by simp
  qed
  then show ?thesis
    by (simp add: query_params_def form_parse_serialize)
qed

subsection \<open>What becomes of one field\<close>

lemma or_default_none [simp]: "or_default v JUndefined = v"
  by (simp add: or_default_def)

lemma lookup_Nil [simp]: "lookup [] k = JUndefined"
  by (simp add: lookup_def)

lemma lookup_Cons [simp]: "lookup ((k', v) # fs) k = (if k' = k then v else lookup fs k)"
  by (simp add: lookup_def)

lemma stringify_None: "stringify v = None \<longleftrightarrow> v = JUndefined"
  by (cases v) simp_all

lemma getAll_emitted:
  "getAll k (emitted (Append k' v)) = (if k' = k then [to_str v] else [])"
  "getAll k (emitted (AppendIf k' v)) = (if k' = k \<and> truthy v then [to_str v] else [])"
  "getAll k (emitted (AppendString k' v)) = (if k' = k then [to_str v] else [])"
  "getAll k (emitted (AppendStringIf k' v)) = (if k' = k \<and> truthy v then [to_str v] else [])"
  by simp_all

lemma via_params:
  assumes "with_params sts mk = Inr req"
  shows "append_steps [] sts = Inr (concat (map emitted sts)) \<and> req = mk (concat (map emitted sts))"
proof -
  from assms obtain ps where 1: "append_steps [] sts = Inr ps" and 2: "req = mk ps"
    by (auto simp: with_params_def split: sum.splits)
  from append_steps_Inr[OF 1] have "ps = concat (map emitted sts)" by simp
  with 1 2 show ?thesis by simp
qed

text \<open>The query that the receiver reads is the list of the parameters that were
  appended.\<close>

lemma query_via_href:
  assumes "with_params sts mk = Inr req"
    and "\<And>ps. url (mk ps) = href e ps"
    and "CHR ''?'' \<notin> set e" and "CHR ''#'' \<notin> set e"
  shows "query_params (url req) = concat (map emitted sts)"
  using via_params[OF assms(1)] assms(2) query_params_href[OF assms(3,4)] by simp

lemma query_via_href_with_search:
  assumes "with_params sts mk = Inr req"
    and "\<And>ps. url (mk ps) = href_with_search origin base_path tail (form_serialize ps)"
    and "CHR ''?'' \<notin> set origin" and "CHR ''#'' \<notin> set origin"
    and "\<forall>segment\<in>set base_path. CHR ''?'' \<notin> set segment \<and> CHR ''#'' \<notin> set segment"
  shows "query_params (url req) = concat (map emitted sts)"
  using via_params[OF assms(1)] assms(2) query_params_href_with_search[OF assms(3,4,5)] by simp

text \<open>The text of a JSON object whose property names need no escape: its members are
  the properties that are not \<^verbatim>\<open>undefined\<close>, in order.\<close>

lemma join_comma: "join '','' xs = drop 1 (concat (map (\<lambda>x. '','' @ x) xs))"
  by (induction "'',''" xs rule: join.induct) simp_all

lemma stringify_props_members:
  assumes "\<forall>kv\<in>set fs. json_quote (fst kv) = [CHR 0x22] @ fst kv @ [CHR 0x22]"
  shows "stringify_props fs =
           map (\<lambda>kv. [CHR 0x22] @ fst kv @ [CHR 0x22] @ '':'' @ snd kv)
             (concat (map (\<lambda>kv. case stringify (snd kv) of None \<Rightarrow> []
                                 | Some s \<Rightarrow> [(fst kv, s)]) fs))"
  using assms by (induction fs) (auto split: option.splits)

lemma stringify_object_text:
  assumes "\<forall>kv\<in>set fs. json_quote (fst kv) = [CHR 0x22] @ fst kv @ [CHR 0x22]"
  shows "stringify (JObj fs) =
           Some (json_object_text
                   (concat (map (\<lambda>kv. case stringify (snd kv) of None \<Rightarrow> []
                                       | Some s \<Rightarrow> [(fst kv, s)]) fs)))"
  by (simp add: stringify_props_members[OF assms] join_comma json_object_text_def comp_def)

lemma members_names:
  "fst ` set (concat (map (\<lambda>kv. case stringify (snd kv) of None \<Rightarrow> []
                                | Some s \<Rightarrow> [(fst kv, s)]) fs)) \<subseteq> fst ` set fs"
  by (induction fs) (auto split: option.splits)

lemma members_distinct:
  "distinct (map fst fs) \<Longrightarrow>
     distinct (map fst (concat (map (\<lambda>kv. case stringify (snd kv) of None \<Rightarrow> []
                                          | Some s \<Rightarrow> [(fst kv, s)]) fs)))"
proof (induction fs)
  case Nil
  then show ?case by simp
next
  case (Cons kv fs)
  then show ?case
    using members_names[of fs] by (auto split: option.splits)
qed

lemma members_values:
  assumes "m \<in> set (concat (map (\<lambda>kv. case stringify (snd kv) of None \<Rightarrow> []
                                     | Some s \<Rightarrow> [(fst kv, s)]) fs))"
  shows "\<exists>v. (fst m, v) \<in> set fs \<and> stringify v = Some (snd m)"
  using assms by (induction fs) (auto split: option.splits)

lemma members_getAll:
  assumes "distinct (map fst fs)"
  shows "getAll f (concat (map (\<lambda>kv. case stringify (snd kv) of None \<Rightarrow> []
                                   | Some s \<Rightarrow> [(fst kv, s)]) fs)) =
           (case stringify (lookup fs f) of None \<Rightarrow> [] | Some s \<Rightarrow> [s])"
  using assms
proof (induction fs)
  case Nil
  then show ?case by simp
next
  case (Cons kv fs)
  obtain k v where kv: "kv = (k, v)" by (cases kv)
  show ?case
  proof (cases "k = f")
    case True
    then have "f \<notin> fst ` set fs"
      using Cons.prems kv by auto
    then have "map_of fs f = None"
      by (simp add: map_of_eq_None_iff)
    then have "lookup fs f = JUndefined"
      by (simp add: lookup_def)
    then show ?thesis
      using Cons kv True by (auto split: option.splits)
  next
    case False
    then show ?thesis
      using Cons kv by (auto split: option.splits)
  qed
qed

text \<open>Tool by tool: the one parameter of the query that carries an optional field, given
  the value the adapter works with (the argument, or its default).\<close>

lemma get_directions_field:
  assumes "get_directions_request env a = Inr req" and "f \<in> set (optional_fields GetDirections)"
  shows "getAll f (query_params (url req)) =
           (if f \<in> set (guarded GetDirections)
                 \<and> \<not> truthy (or_default (lookup a f) (lookup (defaults GetDirections) f))
            then [] else [to_str (or_default (lookup a f) (lookup (defaults GetDirections) f))])"
proof -
  have q: "query_params (url req) = concat (map emitted (get_directions_params env a))"
    by (rule query_via_href[where e = "''https://www.googleapis.com'' @ ''/maps/api/directions/json''",
          OF assms(1)[unfolded get_directions_request_def Let_def]])
       simp_all
  have f: "f = ''mode'' \<or> f = ''language'' \<or> f = ''units'' \<or>
        f = ''departure_time'' \<or> f = ''arrival_time'' \<or>
        f = ''alternatives'' \<or> f = ''avoid'' \<or> f = ''waypoints'' \<or>
        f = ''region'' \<or> f = ''traffic_model''"
    using assms(2) by simp
  then show ?thesis
    unfolding q
    by (elim disjE)
       (simp_all add: get_directions_params_def Let_def getAll_emitted del: emitted.simps)
qed

lemma get_street_view_field:
  assumes "get_street_view_request env a = Inr req" and "f \<in> set (optional_fields GetStreetView)"
  shows "getAll f (query_params (url req)) =
           (if f \<in> set (guarded GetStreetView)
                 \<and> \<not> truthy (or_default (lookup a f) (lookup (defaults GetStreetView) f))
            then [] else [to_str (or_default (lookup a f) (lookup (defaults GetStreetView) f))])"
proof -
  have q: "query_params (url req) = concat (map emitted (get_street_view_params env a))"
    by (rule query_via_href[where e = "''https://www.googleapis.com'' @ ''/maps/api/streetview''",
          OF assms(1)[unfolded get_street_view_request_def Let_def]])
       simp_all
  have f: "f = ''fov'' \<or> f = ''heading'' \<or> f = ''location'' \<or>
        f = ''pano'' \<or> f = ''pitch'' \<or> f = ''radius'' \<or>
        f = ''return_error_code'' \<or> f = ''signature'' \<or> f = ''source''"
    using assms(2) by simp
  then show ?thesis
    unfolding q
    by (elim disjE)
       (simp_all add: get_street_view_params_def Let_def getAll_emitted del: emitted.simps)
qed

lemma geocode_address_field:
  assumes "geocode_address_request env a = Inr req" and "f \<in> set (optional_fields GeocodeAddress)"
  shows "getAll f (query_params (url req)) =
           (if f \<in> set (guarded GeocodeAddress)
                 \<and> \<not> truthy (or_default (lookup a f) (lookup (defaults GeocodeAddress) f))
            then [] else [to_str (or_default (lookup a f) (lookup (defaults GeocodeAddress) f))])"
proof -
  have q: "query_params (url req) = concat (map emitted (geocode_address_params env a))"
    by (rule query_via_href[where e = "''https://www.googleapis.com'' @ ''/maps/api/geocode/json''",
          OF assms(1)[unfolded geocode_address_request_def Let_def]])
       simp_all
  have f: "f = ''bounds'' \<or> f = ''components'' \<or> f = ''latlng'' \<or>
        f = ''place_id'' \<or> f = ''language'' \<or> f = ''region''"
    using assms(2) by simp
  then show ?thesis
    unfolding q
    by (elim disjE)
       (simp_all add: geocode_address_params_def Let_def getAll_emitted del: emitted.simps)
qed

lemma query_autocomplete_field:
  assumes "query_autocomplete_request env a = Inr req" and "f \<in> set (optional_fields QueryAutocomplete)"
  shows "getAll f (query_params (url req)) =
           (if f \<in> set (guarded QueryAutocomplete)
                 \<and> \<not> truthy (or_default (lookup a f) (lookup (defaults QueryAutocomplete) f))
            then [] else [to_str (or_default (lookup a f) (lookup (defaults QueryAutocomplete) f))])"
proof -
  have q: "query_params (url req) = concat (map emitted (query_autocomplete_params env a))"
    by (rule query_via_href[where e = "''https://www.googleapis.com'' @ ''/maps/api/place/queryautocomplete/json''",
          OF assms(1)[unfolded query_autocomplete_request_def Let_def]])
       simp_all
  have f: "f = ''offset'' \<or> f = ''location'' \<or> f = ''radius'' \<or>
        f = ''language''"
    using assms(2) by simp
  then show ?thesis
    unfolding q
    by (elim disjE)
       (simp_all add: query_autocomplete_params_def Let_def getAll_emitted del: emitted.simps)
qed

lemma get_place_photo_field:
  assumes "get_place_photo_request env a = Inr req" and "f \<in> set (optional_fields GetPlacePhoto)"
  shows "getAll f (query_params (url req)) =
           (if f \<in> set (guarded GetPlacePhoto)
                 \<and> \<not> truthy (or_default (lookup a f) (lookup (defaults GetPlacePhoto) f))
            then [] else [to_str (or_default (lookup a f) (lookup (defaults GetPlacePhoto) f))])"
proof -
  have q: "query_params (url req) = concat (map emitted (get_place_photo_params env a))"
    by (rule query_via_href[where e = "''https://maps.googleapis.com/maps/api/place/photo''",
          OF assms(1)[unfolded get_place_photo_request_def Let_def]])
       simp_all
  have f: "f = ''maxheight'' \<or> f = ''maxwidth''"
    using assms(2) by simp
  then show ?thesis
    unfolding q
    by (elim disjE)
       (simp_all add: get_place_photo_params_def Let_def getAll_emitted del: emitted.simps)
qed

lemma get_hourly_weather_field:
  assumes "get_hourly_weather_request env a = Inr req" and "f \<in> set (optional_fields GetHourlyWeather)"
  shows "getAll f (query_params (url req)) =
           (if f \<in> set (guarded GetHourlyWeather)
                 \<and> \<not> truthy (or_default (lookup a f) (lookup (defaults GetHourlyWeather) f))
            then [] else [to_str (or_default (lookup a f) (lookup (defaults GetHourlyWeather) f))])"
proof -
  have q: "query_params (url req) = concat (map emitted (get_hourly_weather_params env a))"
    by (rule query_via_href[where e = "''https://weather.googleapis.com'' @ ''/v1/history/hours:lookup''",
          OF assms(1)[unfolded get_hourly_weather_request_def Let_def]])
       simp_all
  have f: "f = ''unitsSystem'' \<or> f = ''pageSize'' \<or> f = ''pageToken'' \<or>
        f = ''hours'' \<or> f = ''languageCode''"
    using assms(2) by simp
  then show ?thesis
    unfolding q
    by (elim disjE)
       (simp_all add: get_hourly_weather_params_def Let_def getAll_emitted del: emitted.simps)
qed

lemma get_data_layers_field:
  assumes "get_data_layers_request env a = Inr req" and "f \<in> set (optional_fields GetDataLayers)"
  shows "getAll f (query_params (url req)) =
           (if f \<in> set (guarded GetDataLayers)
                 \<and> \<not> truthy (or_default (lookup a f) (lookup (defaults GetDataLayers) f))
            then [] else [to_str (or_default (lookup a f) (lookup (defaults GetDataLayers) f))])"
proof -
  have q: "query_params (url req) = concat (map emitted (get_data_layers_params env a))"
    by (rule query_via_href[where e = "''https://solar.googleapis.com'' @ ''/v1/dataLayers:get''",
          OF assms(1)[unfolded get_data_layers_request_def Let_def]])
       simp_all
  have f: "f = ''radiusMeters'' \<or> f = ''view'' \<or> f = ''requiredQuality'' \<or>
        f = ''pixelSizeMeters''"
    using assms(2) by simp
  then show ?thesis
    unfolding q
    by (elim disjE)
       (simp_all add: get_data_layers_params_def Let_def getAll_emitted del: emitted.simps)
qed

lemma get_place_details_field:
  assumes "get_place_details_request env a = Inr req" and "f \<in> set (optional_fields GetPlaceDetails)"
  shows "getAll f (query_params (url req)) =
           (if f \<in> set (guarded GetPlaceDetails)
                 \<and> \<not> truthy (or_default (lookup a f) (lookup (defaults GetPlaceDetails) f))
            then [] else [to_str (or_default (lookup a f) (lookup (defaults GetPlaceDetails) f))])"
proof -
  from assms(1) obtain placeId_text where
    r: "with_params (get_place_details_params env a)
          (\<lambda>ps. \<lparr>meth = GET,
                 url = href_with_search ''https://places.googleapis.com''
                         [''v1'', ''places''] placeId_text (form_serialize ps),
                 headers = [(''X-Goog-Api-Key'', api_key env),
                            (''X-Goog-FieldMask'', JStr ''*''),
                            (''Content-Type'', JStr ''application/json'')],
                 body = None\<rparr>) = Inr req"
    unfolding get_place_details_request_def Let_def by (auto split: sum.splits)
  have q: "query_params (url req) = concat (map emitted (get_place_details_params env a))"
    by (rule query_via_href_with_search[where origin = "''https://places.googleapis.com''"
          and base_path = "[''v1'', ''places'']" and tail = placeId_text, OF r])
       simp_all
  have f: "f = ''languageCode'' \<or> f = ''regionCode'' \<or> f = ''sessionToken''"
    using assms(2) by simp
  then show ?thesis
    unfolding q
    by (elim disjE)
       (simp_all add: get_place_details_params_def Let_def getAll_emitted del: emitted.simps)
qed

lemma get_elevation_field:
  assumes "get_elevation_request env a = Inr req" and "f \<in> set (optional_fields GetElevation)"
  shows "getAll f (query_params (url req)) =
           (if f \<in> set (guarded GetElevation)
                 \<and> \<not> truthy (or_default (lookup a f) (lookup (defaults GetElevation) f))
            then [] else [to_str (or_default (lookup a f) (lookup (defaults GetElevation) f))])"
proof -
  have q: "query_params (url req) = concat (map emitted (get_elevation_params env a))"
    by (rule query_via_href[where e = "''https://maps.googleapis.com/maps/api/elevation/json''",
          OF assms(1)[unfolded get_elevation_request_def Let_def]])
       simp_all
  have f: "f = ''path'' \<or> f = ''samples''"
    using assms(2) by simp
  then show ?thesis
    unfolding q
    by (elim disjE)
       (simp_all add: get_elevation_params_def Let_def getAll_emitted del: emitted.simps)
qed

lemma distance_matrix_field:
  assumes "distance_matrix_request env a = Inr req" and "f \<in> set (optional_fields DistanceMatrix)"
  shows "getAll f (query_params (url req)) =
           (if f \<in> set (guarded DistanceMatrix)
                 \<and> \<not> truthy (or_default (lookup a f) (lookup (defaults DistanceMatrix) f))
            then [] else [to_str (or_default (lookup a f) (lookup (defaults DistanceMatrix) f))])"
proof -
  have q: "query_params (url req) = concat (map emitted (distance_matrix_params env a))"
    by (rule query_via_href[where e = "''https://maps.googleapis.com/maps/api/distancematrix/json''",
          OF assms(1)[unfolded distance_matrix_request_def Let_def]])
       simp_all
  have f: "f = ''mode'' \<or> f = ''units'' \<or> f = ''language'' \<or>
        f = ''departure_time'' \<or> f = ''arrival_time'' \<or> f = ''avoid'' \<or>
        f = ''region'' \<or> f = ''traffic_model'' \<or> f = ''transit_mode'' \<or>
        f = ''transit_routing_preference''"
    using assms(2) by simp
  then show ?thesis
    unfolding q
    by (elim disjE)
       (simp_all add: distance_matrix_params_def Let_def getAll_emitted del: emitted.simps)
qed

lemma get_street_view_metadata_field:
  assumes "get_street_view_metadata_request env a = Inr req" and "f \<in> set (optional_fields GetStreetViewMetadata)"
  shows "getAll f (query_params (url req)) =
           (if f \<in> set (guarded GetStreetViewMetadata)
                 \<and> \<not> truthy (or_default (lookup a f) (lookup (defaults GetStreetViewMetadata) f))
            then [] else [to_str (or_default (lookup a f) (lookup (defaults GetStreetViewMetadata) f))])"
proof -
  have q: "query_params (url req) = concat (map emitted (get_street_view_metadata_params env a))"
    by (rule query_via_href[where e = "''https://www.googleapis.com'' @ ''/maps/api/streetview/metadata''",
          OF assms(1)[unfolded get_street_view_metadata_request_def Let_def]])
       simp_all
  have f: "f = ''heading'' \<or> f = ''pano'' \<or> f = ''pitch'' \<or>
        f = ''radius'' \<or> f = ''return_error_code'' \<or> f = ''signature'' \<or>
        f = ''size'' \<or> f = ''source''"
    using assms(2) by simp
  then show ?thesis
    unfolding q
    by (elim disjE)
       (simp_all add: get_street_view_metadata_params_def Let_def getAll_emitted del: emitted.simps)
qed

lemma autocomplete_places_field:
  assumes "autocomplete_places_request env a = Inr req" and "f \<in> set (optional_fields AutocompletePlaces)"
  shows "getAll f (query_params (url req)) =
           (if f \<in> set (guarded AutocompletePlaces)
                 \<and> \<not> truthy (or_default (lookup a f) (lookup (defaults AutocompletePlaces) f))
            then [] else [to_str (or_default (lookup a f) (lookup (defaults AutocompletePlaces) f))])"
proof -
  have q: "query_params (url req) = concat (map emitted (autocomplete_places_params env a))"
    by (rule query_via_href[where e = "''https://maps.googleapis.com/maps/api/place/autocomplete/json''",
          OF assms(1)[unfolded autocomplete_places_request_def Let_def]])
       simp_all
  have f: "f = ''sessiontoken'' \<or> f = ''components'' \<or> f = ''strictbounds'' \<or>
        f = ''offset'' \<or> f = ''origin'' \<or> f = ''location'' \<or>
        f = ''radius'' \<or> f = ''types'' \<or> f = ''language'' \<or> f = ''region''"
    using assms(2) by simp
  then show ?thesis
    unfolding q
    by (elim disjE)
       (simp_all add: autocomplete_places_params_def Let_def getAll_emitted del: emitted.simps)
qed

text \<open>The same for the adapters that post a JSON object: the members of the body text
  carry distinct names, each with the JSON text of the value the adapter works with.\<close>

lemma text_search_places_field:
  assumes "text_search_places_request env a = Inr req" and "f \<in> set (optional_fields TextSearchPlaces)"
  shows "\<exists>sent. body req = Some (json_object_text sent) \<and> distinct (map fst sent)
           \<and> (\<forall>m\<in>set sent.
                  stringify (or_default (lookup a (fst m)) (lookup (defaults TextSearchPlaces) (fst m)))
                    = Some (snd m))
           \<and> getAll f sent =
                (case stringify (or_default (lookup a f) (lookup (defaults TextSearchPlaces) f)) of
                   None \<Rightarrow> [] | Some s \<Rightarrow> [s])"
proof -
  define fs where
    "fs = [(''textQuery'', lookup a ''textQuery''),
              (''includedType'', lookup a ''includedType''),
              (''languageCode'', lookup a ''languageCode''),
              (''locationBias'', lookup a ''locationBias''),
              (''locationRestriction'', lookup a ''locationRestriction''),
              (''evOptions'', lookup a ''evOptions''),
              (''minRating'', lookup a ''minRating''),
              (''openNow'', lookup a ''openNow''),
              (''pageSize'', lookup a ''pageSize''),
              (''pageToken'', lookup a ''pageToken''),
              (''priceLevels'', lookup a ''priceLevels''),
              (''rankPreference'', lookup a ''rankPreference''),
              (''regionCode'', lookup a ''regionCode''),
              (''strictTypeFiltering'', lookup a ''strictTypeFiltering'')]"
  define sent where
    "sent = concat (map (\<lambda>kv. case stringify (snd kv) of None \<Rightarrow> []
                              | Some s \<Rightarrow> [(fst kv, s)]) fs)"
  have plain: "\<forall>kv\<in>set fs. json_quote (fst kv) = [CHR 0x22] @ fst kv @ [CHR 0x22]"
    by (simp add: fs_def json_quote_def json_escape_def)
  have b: "body req = Some (json_object_text sent)"
    using assms(1) stringify_object_text[OF plain]
    by (auto simp: text_search_places_request_def text_search_places_requestBody_def Let_def fs_def sent_def)
  have d: "distinct (map fst fs)"
    by (simp add: fs_def)
  have own: "\<And>k v. (k, v) \<in> set fs \<Longrightarrow>
      v = or_default (lookup a k) (lookup (defaults TextSearchPlaces) k)"
    by (auto simp: fs_def)
  have v: "\<forall>m\<in>set sent.
      stringify (or_default (lookup a (fst m)) (lookup (defaults TextSearchPlaces) (fst m))) = Some (snd m)"
  proof
    fix m assume "m \<in> set sent"
    then obtain v where "(fst m, v) \<in> set fs" and "stringify v = Some (snd m)"
      unfolding sent_def using members_values by blast
    then show "stringify (or_default (lookup a (fst m)) (lookup (defaults TextSearchPlaces) (fst m)))
        = Some (snd m)"
      using own by auto
  qed
  have f: "f = ''includedType'' \<or> f = ''languageCode'' \<or>
        f = ''locationBias'' \<or> f = ''locationRestriction'' \<or>
        f = ''evOptions'' \<or> f = ''minRating'' \<or> f = ''openNow'' \<or>
        f = ''pageSize'' \<or> f = ''pageToken'' \<or> f = ''priceLevels'' \<or>
        f = ''rankPreference'' \<or> f = ''regionCode'' \<or>
        f = ''strictTypeFiltering''"
    using assms(2) by simp
  then have g: "lookup fs f = or_default (lookup a f) (lookup (defaults TextSearchPlaces) f)"
    by (elim disjE) (simp_all add: fs_def)
  have "getAll f sent =
      (case stringify (or_default (lookup a f) (lookup (defaults TextSearchPlaces) f)) of
         None \<Rightarrow> [] | Some s \<Rightarrow> [s])"
    unfolding sent_def using members_getAll[OF d, of f] g by simp
  with b v members_distinct[OF d] show ?thesis
    unfolding sent_def by blast
qed

lemma get_route_matrix_field:
  assumes "get_route_matrix_request env a = Inr req" and "f \<in> set (optional_fields GetRouteMatrix)"
  shows "\<exists>sent. body req = Some (json_object_text sent) \<and> distinct (map fst sent)
           \<and> (\<forall>m\<in>set sent.
                  stringify (or_default (lookup a (fst m)) (lookup (defaults GetRouteMatrix) (fst m)))
                    = Some (snd m))
           \<and> getAll f sent =
                (case stringify (or_default (lookup a f) (lookup (defaults GetRouteMatrix) f)) of
                   None \<Rightarrow> [] | Some s \<Rightarrow> [s])"
proof -
  define fs where
    "fs = [(''origins'', lookup a ''origins''),
              (''destinations'', lookup a ''destinations''),
              (''travelMode'', or_default (lookup a ''travelMode'') (JStr ''DRIVE'')),
              (''routingPreference'', or_default (lookup a ''routingPreference'') (JStr ''TRAFFIC_AWARE''))]"
  define sent where
    "sent = concat (map (\<lambda>kv. case stringify (snd kv) of None \<Rightarrow> []
                              | Some s \<Rightarrow> [(fst kv, s)]) fs)"
  have plain: "\<forall>kv\<in>set fs. json_quote (fst kv) = [CHR 0x22] @ fst kv @ [CHR 0x22]"
    by (simp add: fs_def json_quote_def json_escape_def)
  have b: "body req = Some (json_object_text sent)"
    using assms(1) stringify_object_text[OF plain]
    by (auto simp: get_route_matrix_request_def get_route_matrix_requestBody_def Let_def fs_def sent_def)
  have d: "distinct (map fst fs)"
    by (simp add: fs_def)
  have own: "\<And>k v. (k, v) \<in> set fs \<Longrightarrow>
      v = or_default (lookup a k) (lookup (defaults GetRouteMatrix) k)"
    by (auto simp: fs_def)
  have v: "\<forall>m\<in>set sent.
      stringify (or_default (lookup a (fst m)) (lookup (defaults GetRouteMatrix) (fst m))) = Some (snd m)"
  proof
    fix m assume "m \<in> set sent"
    then obtain v where "(fst m, v) \<in> set fs" and "stringify v = Some (snd m)"
      unfolding sent_def using members_values by blast
    then show "stringify (or_default (lookup a (fst m)) (lookup (defaults GetRouteMatrix) (fst m)))
        = Some (snd m)"
      using own by auto
  qed
  have f: "f = ''travelMode'' \<or> f = ''routingPreference''"
    using assms(2) by simp
  then have g: "lookup fs f = or_default (lookup a f) (lookup (defaults GetRouteMatrix) f)"
    by (elim disjE) (simp_all add: fs_def)
  have "getAll f sent =
      (case stringify (or_default (lookup a f) (lookup (defaults GetRouteMatrix) f)) of
         None \<Rightarrow> [] | Some s \<Rightarrow> [s])"
    unfolding sent_def using members_getAll[OF d, of f] g by simp
  with b v members_distinct[OF d] show ?thesis
    unfolding sent_def by blast
qed

lemma geolocate_field:
  assumes "geolocate_request env a = Inr req" and "f \<in> set (optional_fields Geolocate)"
  shows "\<exists>sent. body req = Some (json_object_text sent) \<and> distinct (map fst sent)
           \<and> (\<forall>m\<in>set sent.
                  stringify (or_default (lookup a (fst m)) (lookup (defaults Geolocate) (fst m)))
                    = Some (snd m))
           \<and> getAll f sent =
                (case stringify (or_default (lookup a f) (lookup (defaults Geolocate) f)) of
                   None \<Rightarrow> [] | Some s \<Rightarrow> [s])"
proof -
  define fs where
    "fs = [(''considerIp'', or_default (lookup a ''considerIp'') (JBool False)),
              (''cellTowers'', lookup a ''cellTowers''),
              (''wifiAccessPoints'', lookup a ''wifiAccessPoints'')]"
  define sent where
    "sent = concat (map (\<lambda>kv. case stringify (snd kv) of None \<Rightarrow> []
                              | Some s \<Rightarrow> [(fst kv, s)]) fs)"
  have plain: "\<forall>kv\<in>set fs. json_quote (fst kv) = [CHR 0x22] @ fst kv @ [CHR 0x22]"
    by (simp add: fs_def json_quote_def json_escape_def)
  have b: "body req = Some (json_object_text sent)"
    using assms(1) stringify_object_text[OF plain]
    by (auto simp: geolocate_request_def geolocate_requestBody_def Let_def fs_def sent_def)
  have d: "distinct (map fst fs)"
    by (simp add: fs_def)
  have own: "\<And>k v. (k, v) \<in> set fs \<Longrightarrow>
      v = or_default (lookup a k) (lookup (defaults Geolocate) k)"
    by (auto simp: fs_def)
  have v: "\<forall>m\<in>set sent.
      stringify (or_default (lookup a (fst m)) (lookup (defaults Geolocate) (fst m))) = Some (snd m)"
  proof
    fix m assume "m \<in> set sent"
    then obtain v where "(fst m, v) \<in> set fs" and "stringify v = Some (snd m)"
      unfolding sent_def using members_values by blast
    then show "stringify (or_default (lookup a (fst m)) (lookup (defaults Geolocate) (fst m)))
        = Some (snd m)"
      using own by auto
  qed
  have f: "f = ''considerIp''"
    using assms(2) by simp
  then have g: "lookup fs f = or_default (lookup a f) (lookup (defaults Geolocate) f)"
    by (simp_all add: fs_def)
  have "getAll f sent =
      (case stringify (or_default (lookup a f) (lookup (defaults Geolocate) f)) of
         None \<Rightarrow> [] | Some s \<Rightarrow> [s])"
    unfolding sent_def using members_getAll[OF d, of f] g by simp
  with b v members_distinct[OF d] show ?thesis
    unfolding sent_def by blast
qed

text \<open>All tools at once.\<close>

lemma defaults_are_optional:
  "(f, d) \<in> set (defaults t) \<Longrightarrow> f \<in> set (optional_fields t) \<and> lookup (defaults t) f = d"
  by (cases t) auto

lemma defaults_defined: "(f, d) \<in> set (defaults t) \<Longrightarrow> d \<noteq> JUndefined"
  by (cases t) auto

lemma undefaulted_guarded:
  assumes "f \<in> set (optional_fields t)" and "\<not> posts_json t"
    and "lookup (defaults t) f = JUndefined"
  shows "f \<in> set (guarded t)"
proof (cases t)
  case GetDirections
  have "f = ''mode'' \<or> f = ''language'' \<or> f = ''units'' \<or>
        f = ''departure_time'' \<or> f = ''arrival_time'' \<or>
        f = ''alternatives'' \<or> f = ''avoid'' \<or> f = ''waypoints'' \<or>
        f = ''region'' \<or> f = ''traffic_model''"
    using assms(1) unfolding GetDirections by simp
  then show ?thesis
    using assms(3) unfolding GetDirections by (elim disjE) simp_all
next
  case GetStreetView
  have "f = ''fov'' \<or> f = ''heading'' \<or> f = ''location'' \<or>
        f = ''pano'' \<or> f = ''pitch'' \<or> f = ''radius'' \<or>
        f = ''return_error_code'' \<or> f = ''signature'' \<or> f = ''source''"
    using assms(1) unfolding GetStreetView by simp
  then show ?thesis
    using assms(3) unfolding GetStreetView by (elim disjE) simp_all
next
  case GetRoute
  then show ?thesis
    using assms(2) by (simp add: posts_json_def)
next
  case GetBuildingInsights
  then show ?thesis
    using assms(1) by simp
next
  case RenderVideo
  then show ?thesis
    using assms(2) by (simp add: posts_json_def)
next
  case TextSearchPlaces
  then show ?thesis
    using assms(2) by (simp add: posts_json_def)
next
  case GetVideo
  then show ?thesis
    using assms(1) by simp
next
  case ValidateAddress
  then show ?thesis
    using assms(2) by (simp add: posts_json_def)
next
  case GeocodeAddress
  have "f = ''bounds'' \<or> f = ''components'' \<or> f = ''latlng'' \<or>
        f = ''place_id'' \<or> f = ''language'' \<or> f = ''region''"
    using assms(1) unfolding GeocodeAddress by simp
  then show ?thesis
    using assms(3) unfolding GeocodeAddress by (elim disjE) simp_all
next
  case ComputeInsights
  then show ?thesis
    using assms(2) by (simp add: posts_json_def)
next
  case QueryAutocomplete
  have "f = ''offset'' \<or> f = ''location'' \<or> f = ''radius'' \<or>
        f = ''language''"
    using assms(1) unfolding QueryAutocomplete by simp
  then show ?thesis
    using assms(3) unfolding QueryAutocomplete by (elim disjE) simp_all
next
  case ProvideValidationFeedback
  then show ?thesis
    using assms(2) by (simp add: posts_json_def)
next
  case GetRouteMatrix
  then show ?thesis
    using assms(2) by (simp add: posts_json_def)
next
  case GetPlacePhoto
  have "f = ''maxheight'' \<or> f = ''maxwidth''"
    using assms(1) unfolding GetPlacePhoto by simp
  then show ?thesis
    using assms(3) unfolding GetPlacePhoto by (elim disjE) simp_all
next
  case GetHeatmapTiles
  then show ?thesis
    using assms(1) by simp
next
  case ComputeInsights2
  then show ?thesis
    using assms(2) by (simp add: posts_json_def)
next
  case GetHourlyWeather
  have "f = ''unitsSystem'' \<or> f = ''pageSize'' \<or> f = ''pageToken'' \<or>
        f = ''hours'' \<or> f = ''languageCode''"
    using assms(1) unfolding GetHourlyWeather by simp
  then show ?thesis
    using assms(3) unfolding GetHourlyWeather by (elim disjE) simp_all
next
  case Geolocate
  then show ?thesis
    using assms(2) by (simp add: posts_json_def)
next
  case GetDataLayers
  have "f = ''radiusMeters'' \<or> f = ''view'' \<or> f = ''requiredQuality'' \<or>
        f = ''pixelSizeMeters''"
    using assms(1) unfolding GetDataLayers by simp
  then show ?thesis
    using assms(3) unfolding GetDataLayers by (elim disjE) simp_all
next
  case GetPlaceDetails
  have "f = ''languageCode'' \<or> f = ''regionCode'' \<or> f = ''sessionToken''"
    using assms(1) unfolding GetPlaceDetails by simp
  then show ?thesis
    using assms(3) unfolding GetPlaceDetails by (elim disjE) simp_all
next
  case GetElevation
  have "f = ''path'' \<or> f = ''samples''"
    using assms(1) unfolding GetElevation by simp
  then show ?thesis
    using assms(3) unfolding GetElevation by (elim disjE) simp_all
next
  case DistanceMatrix
  have "f = ''mode'' \<or> f = ''units'' \<or> f = ''language'' \<or>
        f = ''departure_time'' \<or> f = ''arrival_time'' \<or> f = ''avoid'' \<or>
        f = ''region'' \<or> f = ''traffic_model'' \<or> f = ''transit_mode'' \<or>
        f = ''transit_routing_preference''"
    using assms(1) unfolding DistanceMatrix by simp
  then show ?thesis
    using assms(3) unfolding DistanceMatrix by (elim disjE) simp_all
next
  case GetStreetViewMetadata
  have "f = ''heading'' \<or> f = ''pano'' \<or> f = ''pitch'' \<or>
        f = ''radius'' \<or> f = ''return_error_code'' \<or> f = ''signature'' \<or>
        f = ''size'' \<or> f = ''source''"
    using assms(1) unfolding GetStreetViewMetadata by simp
  then show ?thesis
    using assms(3) unfolding GetStreetViewMetadata by (elim disjE) simp_all
next
  case AutocompletePlaces
  have "f = ''sessiontoken'' \<or> f = ''components'' \<or> f = ''strictbounds'' \<or>
        f = ''offset'' \<or> f = ''origin'' \<or> f = ''location'' \<or>
        f = ''radius'' \<or> f = ''types'' \<or> f = ''language'' \<or> f = ''region''"
    using assms(1) unfolding AutocompletePlaces by simp
  then show ?thesis
    using assms(3) unfolding AutocompletePlaces by (elim disjE) simp_all
next
  case GetForecast
  then show ?thesis
    using assms(1) by simp
qed

lemma field_in_query:
  assumes "request_of t env a = Inr req" and "\<not> posts_json t"
    and "f \<in> set (optional_fields t)"
  shows "getAll f (query_params (url req)) =
           (if f \<in> set (guarded t) \<and> \<not> truthy (or_default (lookup a f) (lookup (defaults t) f))
            then [] else [to_str (or_default (lookup a f) (lookup (defaults t) f))])"
proof (cases t)
  case GetDirections
  show ?thesis
    unfolding GetDirections using assms(1,3)[unfolded GetDirections request_of.simps] by (rule get_directions_field)
next
  case GetStreetView
  show ?thesis
    unfolding GetStreetView using assms(1,3)[unfolded GetStreetView request_of.simps] by (rule get_street_view_field)
next
  case GetRoute
  then show ?thesis
    using assms(2) by (simp add: posts_json_def)
next
  case GetBuildingInsights
  then show ?thesis
    using assms(3) by simp
next
  case RenderVideo
  then show ?thesis
    using assms(2) by (simp add: posts_json_def)
next
  case TextSearchPlaces
  then show ?thesis
    using assms(2) by (simp add: posts_json_def)
next
  case GetVideo
  then show ?thesis
    using assms(3) by simp
next
  case ValidateAddress
  then show ?thesis
    using assms(2) by (simp add: posts_json_def)
next
  case GeocodeAddress
  show ?thesis
    unfolding GeocodeAddress using assms(1,3)[unfolded GeocodeAddress request_of.simps] by (rule geocode_address_field)
next
  case ComputeInsights
  then show ?thesis
    using assms(2) by (simp add: posts_json_def)
next
  case QueryAutocomplete
  show ?thesis
    unfolding QueryAutocomplete using assms(1,3)[unfolded QueryAutocomplete request_of.simps] by (rule query_autocomplete_field)
next
  case ProvideValidationFeedback
  then show ?thesis
    using assms(2) by (simp add: posts_json_def)
next
  case GetRouteMatrix
  then show ?thesis
    using assms(2) by (simp add: posts_json_def)
next
  case GetPlacePhoto
  show ?thesis
    unfolding GetPlacePhoto using assms(1,3)[unfolded GetPlacePhoto request_of.simps] by (rule get_place_photo_field)
next
  case GetHeatmapTiles
  then show ?thesis
    using assms(3) by simp
next
  case ComputeInsights2
  then show ?thesis
    using assms(2) by (simp add: posts_json_def)
next
  case GetHourlyWeather
  show ?thesis
    unfolding GetHourlyWeather using assms(1,3)[unfolded GetHourlyWeather request_of.simps] by (rule get_hourly_weather_field)
next
  case Geolocate
  then show ?thesis
    using assms(2) by (simp add: posts_json_def)
next
  case GetDataLayers
  show ?thesis
    unfolding GetDataLayers using assms(1,3)[unfolded GetDataLayers request_of.simps] by (rule get_data_layers_field)
next
  case GetPlaceDetails
  show ?thesis
    unfolding GetPlaceDetails using assms(1,3)[unfolded GetPlaceDetails request_of.simps] by (rule get_place_details_field)
next
  case GetElevation
  show ?thesis
    unfolding GetElevation using assms(1,3)[unfolded GetElevation request_of.simps] by (rule get_elevation_field)
next
  case DistanceMatrix
  show ?thesis
    unfolding DistanceMatrix using assms(1,3)[unfolded DistanceMatrix request_of.simps] by (rule distance_matrix_field)
next
  case GetStreetViewMetadata
  show ?thesis
    unfolding GetStreetViewMetadata using assms(1,3)[unfolded GetStreetViewMetadata request_of.simps] by (rule get_street_view_metadata_field)
next
  case AutocompletePlaces
  show ?thesis
    unfolding AutocompletePlaces using assms(1,3)[unfolded AutocompletePlaces request_of.simps] by (rule autocomplete_places_field)
next
  case GetForecast
  then show ?thesis
    using assms(3) by simp
qed

lemma field_in_body:
  assumes "request_of t env a = Inr req" and "posts_json t"
    and "f \<in> set (optional_fields t)"
  shows "\<exists>sent. body req = Some (json_object_text sent) \<and> distinct (map fst sent)
           \<and> (\<forall>m\<in>set sent.
                  stringify (or_default (lookup a (fst m)) (lookup (defaults t) (fst m)))
                    = Some (snd m))
           \<and> getAll f sent =
                (case stringify (or_default (lookup a f) (lookup (defaults t) f)) of
                   None \<Rightarrow> [] | Some s \<Rightarrow> [s])"
proof (cases t)
  case GetDirections
  then show ?thesis
    using assms(2) by (simp add: posts_json_def)
next
  case GetStreetView
  then show ?thesis
    using assms(2) by (simp add: posts_json_def)
next
  case GetRoute
  then show ?thesis
    using assms(3) by simp
next
  case GetBuildingInsights
  then show ?thesis
    using assms(2) by (simp add: posts_json_def)
next
  case RenderVideo
  then show ?thesis
    using assms(3) by simp
next
  case TextSearchPlaces
  show ?thesis
    unfolding TextSearchPlaces using assms(1,3)[unfolded TextSearchPlaces request_of.simps] by (rule text_search_places_field)
next
  case GetVideo
  then show ?thesis
    using assms(2) by (simp add: posts_json_def)
next
  case ValidateAddress
  then show ?thesis
    using assms(3) by simp
next
  case GeocodeAddress
  then show ?thesis
    using assms(2) by (simp add: posts_json_def)
next
  case ComputeInsights
  then show ?thesis
    using assms(3) by simp
next
  case QueryAutocomplete
  then show ?thesis
    using assms(2) by (simp add: posts_json_def)
next
  case ProvideValidationFeedback
  then show ?thesis
    using assms(3) by simp
next
  case GetRouteMatrix
  show ?thesis
    unfolding GetRouteMatrix using assms(1,3)[unfolded GetRouteMatrix request_of.simps] by (rule get_route_matrix_field)
next
  case GetPlacePhoto
  then show ?thesis
    using assms(2) by (simp add: posts_json_def)
next
  case GetHeatmapTiles
  then show ?thesis
    using assms(2) by (simp add: posts_json_def)
next
  case ComputeInsights2
  then show ?thesis
    using assms(3) by simp
next
  case GetHourlyWeather
  then show ?thesis
    using assms(2) by (simp add: posts_json_def)
next
  case Geolocate
  show ?thesis
    unfolding Geolocate using assms(1,3)[unfolded Geolocate request_of.simps] by (rule geolocate_field)
next
  case GetDataLayers
  then show ?thesis
    using assms(2) by (simp add: posts_json_def)
next
  case GetPlaceDetails
  then show ?thesis
    using assms(2) by (simp add: posts_json_def)
next
  case GetElevation
  then show ?thesis
    using assms(2) by (simp add: posts_json_def)
next
  case DistanceMatrix
  then show ?thesis
    using assms(2) by (simp add: posts_json_def)
next
  case GetStreetViewMetadata
  then show ?thesis
    using assms(2) by (simp add: posts_json_def)
next
  case AutocompletePlaces
  then show ?thesis
    using assms(2) by (simp add: posts_json_def)
next
  case GetForecast
  then show ?thesis
    using assms(2) by (simp add: posts_json_def)
qed

text \<open>Where the key goes when it is set, for every adapter but \<open>get_video\<close>: into
  the \<^verbatim>\<open>X-Goog-Api-Key\<close> header; to the end of a URL that has no other query,
  written as it is by a template literal; or into the query as the one parameter named
  \<open>key\<close>. \<open>get_forecast\<close> needs the key to be non-empty.\<close>

lemma key_sent_elsewhere:
  assumes "request_of t (Some k) a = Inr req"
    and "t \<noteq> GetVideo"
    and "t = GetForecast \<Longrightarrow> k \<noteq> []"
  shows "if key_in_header t then (''X-Goog-Api-Key'', JStr k) \<in> set (headers req)
         else if t \<in> {RenderVideo, ValidateAddress, ProvideValidationFeedback, Geolocate,
                        GetHeatmapTiles}
           then suffix (''?key='' @ k) (url req)
         else getAll ''key'' (query_params (url req)) = [k]"
proof (cases t)
  case GetDirections
  have q: "query_params (url req) = concat (map emitted (get_directions_params (Some k) a))"
    by (rule query_via_href[where e = "''https://www.googleapis.com'' @ ''/maps/api/directions/json''",
          OF assms(1)[unfolded GetDirections request_of.simps get_directions_request_def Let_def]])
       simp_all
  show ?thesis
    using GetDirections assms(3) unfolding q
    by (simp add: key_in_header_def get_directions_params_def Let_def api_key_def getAll_emitted
          del: emitted.simps)
next
  case GetStreetView
  have q: "query_params (url req) = concat (map emitted (get_street_view_params (Some k) a))"
    by (rule query_via_href[where e = "''https://www.googleapis.com'' @ ''/maps/api/streetview''",
          OF assms(1)[unfolded GetStreetView request_of.simps get_street_view_request_def Let_def]])
       simp_all
  show ?thesis
    using GetStreetView assms(3) unfolding q
    by (simp add: key_in_header_def get_street_view_params_def Let_def api_key_def getAll_emitted
          del: emitted.simps)
next
  case GetRoute
  then show ?thesis
    using assms(1)
    by (auto simp: key_in_header_def get_route_request_def Let_def api_key_def split: sum.splits)
next
  case GetBuildingInsights
  have q: "query_params (url req) = concat (map emitted (get_building_insights_params (Some k) a))"
    by (rule query_via_href[where e = "''https://solar.googleapis.com'' @ ''/v1/buildingInsights:findClosest''",
          OF assms(1)[unfolded GetBuildingInsights request_of.simps get_building_insights_request_def Let_def]])
       simp_all
  show ?thesis
    using GetBuildingInsights assms(3) unfolding q
    by (simp add: key_in_header_def get_building_insights_params_def Let_def api_key_def getAll_emitted
          del: emitted.simps)
next
  case RenderVideo
  then show ?thesis
    using assms(1)
    by (auto simp: key_in_header_def render_video_request_def Let_def api_key_def suffix_Cons
          suffix_appendI)
next
  case TextSearchPlaces
  then show ?thesis
    using assms(1)
    by (auto simp: key_in_header_def text_search_places_request_def Let_def api_key_def)
next
  case GetVideo
  then show ?thesis
    using assms(2) by simp
next
  case ValidateAddress
  then show ?thesis
    using assms(1)
    by (auto simp: key_in_header_def validate_address_request_def Let_def api_key_def suffix_Cons
          suffix_appendI)
next
  case GeocodeAddress
  have q: "query_params (url req) = concat (map emitted (geocode_address_params (Some k) a))"
    by (rule query_via_href[where e = "''https://www.googleapis.com'' @ ''/maps/api/geocode/json''",
          OF assms(1)[unfolded GeocodeAddress request_of.simps geocode_address_request_def Let_def]])
       simp_all
  show ?thesis
    using GeocodeAddress assms(3) unfolding q
    by (simp add: key_in_header_def geocode_address_params_def Let_def api_key_def getAll_emitted
          del: emitted.simps)
next
  case ComputeInsights
  then show ?thesis
    using assms(1)
    by (auto simp: key_in_header_def compute_insights_request_def Let_def api_key_def)
next
  case QueryAutocomplete
  have q: "query_params (url req) = concat (map emitted (query_autocomplete_params (Some k) a))"
    by (rule query_via_href[where e = "''https://www.googleapis.com'' @ ''/maps/api/place/queryautocomplete/json''",
          OF assms(1)[unfolded QueryAutocomplete request_of.simps query_autocomplete_request_def Let_def]])
       simp_all
  show ?thesis
    using QueryAutocomplete assms(3) unfolding q
    by (simp add: key_in_header_def query_autocomplete_params_def Let_def api_key_def getAll_emitted
          del: emitted.simps)
next
  case ProvideValidationFeedback
  then show ?thesis
    using assms(1)
    by (auto simp: key_in_header_def provide_validation_feedback_request_def Let_def api_key_def suffix_Cons
          suffix_appendI)
next
  case GetRouteMatrix
  then show ?thesis
    using assms(1)
    by (auto simp: key_in_header_def get_route_matrix_request_def Let_def api_key_def)
next
  case GetPlacePhoto
  have q: "query_params (url req) = concat (map emitted (get_place_photo_params (Some k) a))"
    by (rule query_via_href[where e = "''https://maps.googleapis.com/maps/api/place/photo''",
          OF assms(1)[unfolded GetPlacePhoto request_of.simps get_place_photo_request_def Let_def]])
       simp_all
  show ?thesis
    using GetPlacePhoto assms(3) unfolding q
    by (simp add: key_in_header_def get_place_photo_params_def Let_def api_key_def getAll_emitted
          del: emitted.simps)
next
  case GetHeatmapTiles
  then show ?thesis
    using assms(1)
    by (auto simp: key_in_header_def get_heatmap_tiles_request_def Let_def api_key_def
          String_of_def suffix_Cons suffix_appendI split: if_splits)
next
  case ComputeInsights2
  then show ?thesis
    using assms(1)
    by (auto simp: key_in_header_def compute_insights2_request_def Let_def api_key_def)
next
  case GetHourlyWeather
  have q: "query_params (url req) = concat (map emitted (get_hourly_weather_params (Some k) a))"
    by (rule query_via_href[where e = "''https://weather.googleapis.com'' @ ''/v1/history/hours:lookup''",
          OF assms(1)[unfolded GetHourlyWeather request_of.simps get_hourly_weather_request_def Let_def]])
       simp_all
  show ?thesis
    using GetHourlyWeather assms(3) unfolding q
    by (simp add: key_in_header_def get_hourly_weather_params_def Let_def api_key_def getAll_emitted
          del: emitted.simps)
next
  case Geolocate
  then show ?thesis
    using assms(1)
    by (auto simp: key_in_header_def geolocate_request_def Let_def api_key_def suffix_Cons
          suffix_appendI)
next
  case GetDataLayers
  have q: "query_params (url req) = concat (map emitted (get_data_layers_params (Some k) a))"
    by (rule query_via_href[where e = "''https://solar.googleapis.com'' @ ''/v1/dataLayers:get''",
          OF assms(1)[unfolded GetDataLayers request_of.simps get_data_layers_request_def Let_def]])
       simp_all
  show ?thesis
    using GetDataLayers assms(3) unfolding q
    by (simp add: key_in_header_def get_data_layers_params_def Let_def api_key_def getAll_emitted
          del: emitted.simps)
next
  case GetPlaceDetails
  then show ?thesis
    using assms(1)
    by (auto simp: key_in_header_def get_place_details_request_def with_params_def Let_def
          api_key_def split: sum.splits)
next
  case GetElevation
  have q: "query_params (url req) = concat (map emitted (get_elevation_params (Some k) a))"
    by (rule query_via_href[where e = "''https://maps.googleapis.com/maps/api/elevation/json''",
          OF assms(1)[unfolded GetElevation request_of.simps get_elevation_request_def Let_def]])
       simp_all
  show ?thesis
    using GetElevation assms(3) unfolding q
    by (simp add: key_in_header_def get_elevation_params_def Let_def api_key_def getAll_emitted
          del: emitted.simps)
next
  case DistanceMatrix
  have q: "query_params (url req) = concat (map emitted (distance_matrix_params (Some k) a))"
    by (rule query_via_href[where e = "''https://maps.googleapis.com/maps/api/distancematrix/json''",
          OF assms(1)[unfolded DistanceMatrix request_of.simps distance_matrix_request_def Let_def]])
       simp_all
  show ?thesis
    using DistanceMatrix assms(3) unfolding q
    by (simp add: key_in_header_def distance_matrix_params_def Let_def api_key_def getAll_emitted
          del: emitted.simps)
next
  case GetStreetViewMetadata
  have q: "query_params (url req) = concat (map emitted (get_street_view_metadata_params (Some k) a))"
    by (rule query_via_href[where e = "''https://www.googleapis.com'' @ ''/maps/api/streetview/metadata''",
          OF assms(1)[unfolded GetStreetViewMetadata request_of.simps get_street_view_metadata_request_def Let_def]])
       simp_all
  show ?thesis
    using GetStreetViewMetadata assms(3) unfolding q
    by (simp add: key_in_header_def get_street_view_metadata_params_def Let_def api_key_def getAll_emitted
          del: emitted.simps)
next
  case AutocompletePlaces
  have q: "query_params (url req) = concat (map emitted (autocomplete_places_params (Some k) a))"
    by (rule query_via_href[where e = "''https://maps.googleapis.com/maps/api/place/autocomplete/json''",
          OF assms(1)[unfolded AutocompletePlaces request_of.simps autocomplete_places_request_def Let_def]])
       simp_all
  show ?thesis
    using AutocompletePlaces assms(3) unfolding q
    by (simp add: key_in_header_def autocomplete_places_params_def Let_def api_key_def getAll_emitted
          del: emitted.simps)
next
  case GetForecast
  have q: "query_params (url req) = concat (map emitted (get_forecast_params (Some k) a))"
    by (rule query_via_href[where e = "''https://pollen.googleapis.com'' @ ''/v1/forecast:lookup''",
          OF assms(1)[unfolded GetForecast request_of.simps get_forecast_request_def Let_def]])
       simp_all
  show ?thesis
    using GetForecast assms(3) unfolding q
    by (simp add: key_in_header_def get_forecast_params_def Let_def api_key_def getAll_emitted
          del: emitted.simps)
qed

subsection \<open>Instances\<close>

text \<open>An instance of \<open>get_place_details\<close>: a place id with a \<^verbatim>\<open>#\<close> leaves a
  fragment behind the assigned query, which is still the query that is read.\<close>

lemma get_place_details_fragment:
  "issued (executeFunction GetPlaceDetails (Some ''k'')
       [(''placeId'', JStr ''abc#x''), (''languageCode'', JStr ''en'')]
       (answering (NetworkError ''offline''))) =
     [\<lparr>meth = GET,
       url = ''https://places.googleapis.com/v1/places/abc?languageCode=en#x'',
       headers = [(''X-Goog-Api-Key'', JStr ''k''), (''X-Goog-FieldMask'', JStr ''*''),
                  (''Content-Type'', JStr ''application/json'')],
       body = None\<rparr>]
   \<and> query_params ''https://places.googleapis.com/v1/places/abc?languageCode=en#x''
       = [(''languageCode'', ''en'')]"
  by code_simp

text \<open>A conversion that throws inside the \<^verbatim>\<open>try\<close> block is caught like any other
  failure, and no request is made: an argument with an own \<open>toString\<close> property that
  is appended to the query, and \<^verbatim>\<open>pageSize: null\<close> in \<open>get_hourly_weather\<close>,
  which calls \<^verbatim>\<open>pageSize.toString()\<close> without a test. A number that prints in
  exponent form is form-encoded like any other text.\<close>

lemma unprintable_argument_is_caught:
  "executeFunction GetDirections (Some ''k'')
       [(''origin'', JObj [(''toString'', JNum 1)]), (''destination'', JStr ''B'')]
       (answering (NetworkError ''offline''))
     = \<lparr>issued = [],
        logged = [(''Error fetching directions:'', ''Cannot convert object to primitive value'')],
        result = Resolved (JObj [(''error'',
          JStr ''An error occurred while fetching directions: Cannot convert object to primitive value'')])\<rparr>"
  by code_simp

lemma null_page_size_is_caught:
  "executeFunction GetHourlyWeather (Some ''k'')
       [(''latitude'', JNum 37), (''longitude'', JNum (-122)), (''pageSize'', JNull)]
       (answering (NetworkError ''offline''))
     = \<lparr>issued = [],
        logged = [(''Error retrieving hourly historical weather data:'',
                   ''Cannot read properties of null (reading '' @ [CHR 0x27] @ ''toString'' @ [CHR 0x27] @ '')'')],
        result = Resolved (JObj [(''error'',
          JStr (''An error occurred while retrieving weather data: Cannot read properties of null (reading ''
                @ [CHR 0x27] @ ''toString'' @ [CHR 0x27] @ '')''))])\<rparr>"
  by code_simp

lemma large_number_in_query:
  "issued (executeFunction GetBuildingInsights (Some ''k'')
       [(''latitude'', JReal ''1e+21''), (''longitude'', JReal ''-0.5'')]
       (answering (NetworkError ''offline''))) =
     [\<lparr>meth = GET,
       url = ''https://solar.googleapis.com/v1/buildingInsights:findClosest?location.latitude=1e%2B21&location.longitude=-0.5&requiredQuality=HIGH&key=k'',
       headers = [], body = None\<rparr>]"
  by code_simp

section \<open>Concrete scenarios\<close>

text \<open>
  C6. The \<open>get_route\<close> adapter, called with
  \<^verbatim>\<open>{origin:{address:"A"}, destination:{address:"B"}}\<close>, issues exactly one
  request, whatever the key and whatever the network answers: a POST to
  \<^verbatim>\<open>https://routes.googleapis.com/directions/v2:computeRoutes\<close> whose body is
  \<^verbatim>\<open>{"origin":{"address":"A"},"destination":{"address":"B"}}\<close> and whose headers
  include \<^verbatim>\<open>X-Goog-FieldMask: *\<close>.
\<close>

theorem get_route_scenario:
  \<open>\<exists>req. issued (executeFunction GetRoute env
             [(''origin'', JObj [(''address'', JStr ''A'')]),
              (''destination'', JObj [(''address'', JStr ''B'')])] net) = [req]
        \<and> meth req = POST
        \<and> url req = ''https://routes.googleapis.com/directions/v2:computeRoutes''
        \<and> body req = Some ''{"origin":{"address":"A"},"destination":{"address":"B"}}''
        \<and> (''X-Goog-FieldMask'', JStr ''*'') \<in> set (headers req)\<close>
  by (simp add: executeFunction_def get_route_request_def get_route_requestBody_def
        json_quote_def json_escape_def caught_def
        split: sum.split)

text \<open>
  C7. The \<open>geocode_address\<close> adapter, called with only
  \<^verbatim>\<open>{address:"1600 Amphitheatre Pkwy"}\<close> and the key \<open>k\<close>, issues one GET
  request whose query string is exactly
  \<^verbatim>\<open>address=1600+Amphitheatre+Pkwy&language=en&region=en&key=\<close> followed by the
  form-encoded key (the key itself when it is made of letters, digits and
  \<^verbatim>\<open>* - . _\<close>, by \<open>form_encode_safe\<close>): no other parameter is sent.
\<close>

theorem geocode_address_scenario:
  "\<exists>req. issued (executeFunction GeocodeAddress (Some k)
             [(''address'', JStr ''1600 Amphitheatre Pkwy'')] net) = [req]
        \<and> meth req = GET
        \<and> url req = ''https://www.googleapis.com/maps/api/geocode/json'' @ ''?''
             @ ''address=1600+Amphitheatre+Pkwy&language=en&region=en&key='' @ form_encode k"
  by (simp add: executeFunction_def geocode_address_request_def geocode_address_params_def
        with_params_def String_of_def or_default_def href_def form_serialize_def
        form_encode_def form_encode_byte_def form_safe_def caught_def api_key_def
        split: sum.split)

section \<open>Defaults\<close>

text \<open>
  C8 (as the code has it). The default of the destructuring pattern is used exactly when
  the argument is absent: the adapter works with the argument when one is given (whatever
  it is, \<^verbatim>\<open>null\<close> included) and with the default \<open>d\<close> otherwise. Whenever the
  adapter issues its request, that value \<open>v\<close> is what the request carries for the field:
  in a JSON body the member of that name, with the JSON text of \<open>v\<close>; in a query the
  single parameter of that name, with the text of \<open>v\<close> -- unless the adapter appends the
  parameter under \<^verbatim>\<open>if (parameter)\<close> and \<open>v\<close> is falsy: then the query has no
  parameter of that name. So a default that is falsy and guarded (\<open>pitch = 0\<close>,
  \<open>return_error_code = false\<close>, \<open>alternatives = false\<close>) is never encoded.
\<close>

theorem defaults_applied:
  assumes "issued (executeFunction t env a net) = [req]"
    and "(f, d) \<in> set (defaults t)"
  shows "let v = (if lookup a f = JUndefined then d else lookup a f)
         in if posts_json t
            then (\<exists>sent s. body req = Some (json_object_text sent)
                    \<and> distinct (map fst sent)
                    \<and> (\<forall>m\<in>set sent.
                          stringify (or_default (lookup a (fst m)) (lookup (defaults t) (fst m)))
                            = Some (snd m))
                    \<and> stringify v = Some s
                    \<and> getAll f sent = [s])
            else getAll f (query_params (url req)) =
                   (if f \<in> set (guarded t) \<and> \<not> truthy v then [] else [to_str v])"
proof -
  have r: "request_of t env a = Inr req"
    using assms(1) by (rule issued_single)
  have o: "f \<in> set (optional_fields t)" and l: "lookup (defaults t) f = d"
    using defaults_are_optional[OF assms(2)] by simp_all
  have v: "or_default (lookup a f) (lookup (defaults t) f) =
             (if lookup a f = JUndefined then d else lookup a f)"
    by (simp add: or_default_def l)
  show ?thesis
  proof (cases "posts_json t")
    case True
    from field_in_body[OF r True o] obtain sent where
      b: "body req = Some (json_object_text sent)" and di: "distinct (map fst sent)"
      and m: "\<forall>m\<in>set sent.
                stringify (or_default (lookup a (fst m)) (lookup (defaults t) (fst m)))
                  = Some (snd m)"
      and g: "getAll f sent =
                (case stringify (if lookup a f = JUndefined then d else lookup a f) of
                   None \<Rightarrow> [] | Some s \<Rightarrow> [s])"
      unfolding v by blast
    have "(if lookup a f = JUndefined then d else lookup a f) \<noteq> JUndefined"
      using defaults_defined[OF assms(2)] by simp
    then obtain s where s: "stringify (if lookup a f = JUndefined then d else lookup a f) = Some s"
      using stringify_None by (metis option.exhaust)
    with g have "getAll f sent = [s]" by simp
    with b di m s True show ?thesis
      unfolding Let_def by auto
  next
    case False
    with field_in_query[OF r False o] show ?thesis
      unfolding v Let_def by simp
  qed
qed

theorem defaults_applied_witness:
  "issued (executeFunction GetDirections (Some ''k'')
      [(''origin'', JStr ''A''), (''destination'', JStr ''B'')]
      (answering (NetworkError ''offline''))) =
     [\<lparr>meth = GET,
       url = ''https://www.googleapis.com/maps/api/directions/json?origin=A&destination=B&mode=driving&language=en&units=metric&traffic_model=best_guess&key=k'',
       headers = [(''Accept'', JStr ''application/json'')], body = None\<rparr>]
   \<and> getAll ''mode'' (query_params
        ''https://www.googleapis.com/maps/api/directions/json?origin=A&destination=B&mode=driving&language=en&units=metric&traffic_model=best_guess&key=k'')
       = [''driving'']
   \<and> issued (executeFunction GetStreetView (Some ''k'') [(''size'', JStr ''600x400'')]
      (answering (NetworkError ''offline''))) =
     [\<lparr>meth = GET,
       url = ''https://www.googleapis.com/maps/api/streetview?size=600x400&fov=90&radius=50&key=k'',
       headers = [(''Accept'', JStr ''image/*'')], body = None\<rparr>]
   \<and> getAll ''fov'' (query_params
        ''https://www.googleapis.com/maps/api/streetview?size=600x400&fov=90&radius=50&key=k'')
       = [''90'']"
proof -
  let ?d = "\<lparr>meth = GET,
       url = ''https://www.googleapis.com/maps/api/directions/json?origin=A&destination=B&mode=driving&language=en&units=metric&traffic_model=best_guess&key=k'',
       headers = [(''Accept'', JStr ''application/json'')], body = None\<rparr>"
  let ?s = "\<lparr>meth = GET,
       url = ''https://www.googleapis.com/maps/api/streetview?size=600x400&fov=90&radius=50&key=k'',
       headers = [(''Accept'', JStr ''image/*'')], body = None\<rparr>"
  have 1: "issued (executeFunction GetDirections (Some ''k'')
      [(''origin'', JStr ''A''), (''destination'', JStr ''B'')]
      (answering (NetworkError ''offline''))) = [?d]"
    by code_simp
  have 2: "(''mode'', JStr ''driving'') \<in> set (defaults GetDirections)"
    by simp
  have 3: "issued (executeFunction GetStreetView (Some ''k'') [(''size'', JStr ''600x400'')]
      (answering (NetworkError ''offline''))) = [?s]"
    by code_simp
  have 4: "(''fov'', JNum 90) \<in> set (defaults GetStreetView)"
    by simp
  have 5: "to_str (JNum 90) = ''90''"
    by code_simp
  have "getAll ''mode'' (query_params (url ?d)) = [''driving'']"
    using defaults_applied[OF 1 2] by (simp add: posts_json_def)
  moreover have "getAll ''fov'' (query_params (url ?s)) = [''90'']"
    using defaults_applied[OF 3 4] 5 by (simp add: posts_json_def)
  ultimately show ?thesis
    using 1 3 by simp
qed

text \<open>
  C8 as stated fails at \<open>get_street_view\<close>, whose documented defaults include
  \<open>pitch = 0\<close> and \<open>return_error_code = false\<close>: called with only
  \<^verbatim>\<open>{size:"600x400"}\<close> it fetches a URL whose query has \<open>fov\<close> and
  \<open>radius\<close> with their defaults, and neither \<open>pitch\<close> nor
  \<open>return_error_code\<close>.
\<close>

theorem street_view_default_pitch_not_sent:
  "issued (executeFunction GetStreetView (Some ''k'') [(''size'', JStr ''600x400'')]
       (answering (NetworkError ''offline''))) =
     [\<lparr>meth = GET,
       url = ''https://www.googleapis.com/maps/api/streetview?size=600x400&fov=90&radius=50&key=k'',
       headers = [(''Accept'', JStr ''image/*'')],
       body = None\<rparr>]
   \<and> lookup (defaults GetStreetView) ''pitch'' = JNum 0
   \<and> lookup (defaults GetStreetView) ''return_error_code'' = JBool False
   \<and> getAll ''pitch'' (query_params
         ''https://www.googleapis.com/maps/api/streetview?size=600x400&fov=90&radius=50&key=k'') = []
   \<and> getAll ''return_error_code'' (query_params
         ''https://www.googleapis.com/maps/api/streetview?size=600x400&fov=90&radius=50&key=k'') = []
   \<and> \<not> sublist ''pitch''
         ''https://www.googleapis.com/maps/api/streetview?size=600x400&fov=90&radius=50&key=k''"
  by code_simp

section \<open>Optional parameters\<close>

text \<open>
  C4 (as the code has it). Whenever an adapter issues its request, every declared optional
  field \<open>f\<close> is in it as follows.
  \<^item> A field that was provided (its argument is not \<^verbatim>\<open>undefined\<close>) is sent
    verbatim: in a JSON body as the member \<open>f\<close> with the JSON text of the argument; in a
    query as the single parameter \<open>f\<close> with the text of the argument -- except that a
    parameter which the adapter appends under \<^verbatim>\<open>if (parameter)\<close> is left out
    when the argument is falsy (\<^verbatim>\<open>0\<close>, \<^verbatim>\<open>false\<close>, the empty string,
    \<^verbatim>\<open>null\<close>).
  \<^item> A field that was omitted and has no default is not in the request.
  \<^item> A field that was omitted and has a default is sent with the default, under the same
    exception.
  The members of a JSON body have distinct names and each is the JSON text of the value
  the adapter works with, so nothing else is sent under the name \<open>f\<close>.
\<close>

theorem optional_fields_forwarded:
  assumes "issued (executeFunction t env a net) = [req]"
    and "f \<in> set (optional_fields t)"
  shows "if posts_json t
         then (\<exists>sent. body req = Some (json_object_text sent)
                 \<and> distinct (map fst sent)
                 \<and> (\<forall>m\<in>set sent.
                       stringify (or_default (lookup a (fst m)) (lookup (defaults t) (fst m)))
                         = Some (snd m))
                 \<and> (lookup a f \<noteq> JUndefined \<longrightarrow>
                       (\<exists>s. stringify (lookup a f) = Some s \<and> getAll f sent = [s]))
                 \<and> (lookup a f = JUndefined \<and> lookup (defaults t) f = JUndefined \<longrightarrow>
                       getAll f sent = [])
                 \<and> (lookup a f = JUndefined \<and> lookup (defaults t) f \<noteq> JUndefined \<longrightarrow>
                       (\<exists>s. stringify (lookup (defaults t) f) = Some s \<and> getAll f sent = [s])))
         else (lookup a f \<noteq> JUndefined \<longrightarrow>
                 getAll f (query_params (url req)) =
                   (if f \<in> set (guarded t) \<and> \<not> truthy (lookup a f) then []
                    else [to_str (lookup a f)]))
            \<and> (lookup a f = JUndefined \<and> lookup (defaults t) f = JUndefined \<longrightarrow>
                 getAll f (query_params (url req)) = [])
            \<and> (lookup a f = JUndefined \<and> lookup (defaults t) f \<noteq> JUndefined \<longrightarrow>
                 getAll f (query_params (url req)) =
                   (if f \<in> set (guarded t) \<and> \<not> truthy (lookup (defaults t) f) then []
                    else [to_str (lookup (defaults t) f)]))"
proof -
  have r: "request_of t env a = Inr req"
    using assms(1) by (rule issued_single)
  let ?v = "or_default (lookup a f) (lookup (defaults t) f)"
  have given: "lookup a f \<noteq> JUndefined \<Longrightarrow> ?v = lookup a f"
    and omitted: "lookup a f = JUndefined \<Longrightarrow> ?v = lookup (defaults t) f"
    by (simp_all add: or_default_def)
  show ?thesis
  proof (cases "posts_json t")
    case True
    from field_in_body[OF r True assms(2)] obtain sent where
      b: "body req = Some (json_object_text sent)" and di: "distinct (map fst sent)"
      and m: "\<forall>m\<in>set sent.
                stringify (or_default (lookup a (fst m)) (lookup (defaults t) (fst m)))
                  = Some (snd m)"
      and g: "getAll f sent = (case stringify ?v of None \<Rightarrow> [] | Some s \<Rightarrow> [s])"
      by blast
    have 1: "lookup a f \<noteq> JUndefined \<longrightarrow>
               (\<exists>s. stringify (lookup a f) = Some s \<and> getAll f sent = [s])"
    proof
      assume p: "lookup a f \<noteq> JUndefined"
      then obtain s where "stringify (lookup a f) = Some s"
        using stringify_None by (metis option.exhaust)
      then show "\<exists>s. stringify (lookup a f) = Some s \<and> getAll f sent = [s]"
        using g given[OF p] by simp
    qed
    have 2: "lookup a f = JUndefined \<and> lookup (defaults t) f = JUndefined \<longrightarrow>
               getAll f sent = []"
      using g by (simp add: or_default_def)
    have 3: "lookup a f = JUndefined \<and> lookup (defaults t) f \<noteq> JUndefined \<longrightarrow>
               (\<exists>s. stringify (lookup (defaults t) f) = Some s \<and> getAll f sent = [s])"
    proof
      assume p: "lookup a f = JUndefined \<and> lookup (defaults t) f \<noteq> JUndefined"
      then obtain s where "stringify (lookup (defaults t) f) = Some s"
        using stringify_None by (metis option.exhaust)
      then show "\<exists>s. stringify (lookup (defaults t) f) = Some s \<and> getAll f sent = [s]"
        using g omitted p by simp
    qed
    from b di m 1 2 3 have
      "\<exists>sent. body req = Some (json_object_text sent)
          \<and> distinct (map fst sent)
          \<and> (\<forall>m\<in>set sent.
                stringify (or_default (lookup a (fst m)) (lookup (defaults t) (fst m)))
                  = Some (snd m))
          \<and> (lookup a f \<noteq> JUndefined \<longrightarrow>
                (\<exists>s. stringify (lookup a f) = Some s \<and> getAll f sent = [s]))
          \<and> (lookup a f = JUndefined \<and> lookup (defaults t) f = JUndefined \<longrightarrow>
                getAll f sent = [])
          \<and> (lookup a f = JUndefined \<and> lookup (defaults t) f \<noteq> JUndefined \<longrightarrow>
                (\<exists>s. stringify (lookup (defaults t) f) = Some s \<and> getAll f sent = [s]))"
      by blast
    with True show ?thesis by simp
  next
    case False
    note q = field_in_query[OF r False assms(2)]
    have 1: "lookup a f \<noteq> JUndefined \<longrightarrow>
               getAll f (query_params (url req)) =
                 (if f \<in> set (guarded t) \<and> \<not> truthy (lookup a f) then []
                  else [to_str (lookup a f)])"
      using q given by simp
    have 2: "lookup a f = JUndefined \<and> lookup (defaults t) f = JUndefined \<longrightarrow>
               getAll f (query_params (url req)) = []"
      using q undefaulted_guarded[OF assms(2) False] by (simp add: or_default_def)
    have 3: "lookup a f = JUndefined \<and> lookup (defaults t) f \<noteq> JUndefined \<longrightarrow>
               getAll f (query_params (url req)) =
                 (if f \<in> set (guarded t) \<and> \<not> truthy (lookup (defaults t) f) then []
                  else [to_str (lookup (defaults t) f)])"
      using q omitted by simp
    from False 1 2 3 show ?thesis by simp
  qed
qed

theorem optional_fields_forwarded_witness:
  \<open>issued (executeFunction GetStreetView (Some ''k'')
      [(''size'', JStr ''600x400''), (''heading'', JNum 180)]
      (answering (NetworkError ''offline''))) =
     [\<lparr>meth = GET,
       url = ''https://www.googleapis.com/maps/api/streetview?size=600x400&fov=90&heading=180&radius=50&key=k'',
       headers = [(''Accept'', JStr ''image/*'')], body = None\<rparr>]
   \<and> getAll ''heading'' (query_params
        ''https://www.googleapis.com/maps/api/streetview?size=600x400&fov=90&heading=180&radius=50&key=k'')
       = [''180'']
   \<and> getAll ''pano'' (query_params
        ''https://www.googleapis.com/maps/api/streetview?size=600x400&fov=90&heading=180&radius=50&key=k'')
       = []
   \<and> issued (executeFunction TextSearchPlaces (Some ''k'')
      [(''textQuery'', JStr ''pizza''), (''pageSize'', JNum 5)]
      (answering (NetworkError ''offline''))) =
     [\<lparr>meth = POST,
       url = ''https://places.googleapis.com/v1/places:searchText'',
       headers = [(''Content-Type'', JStr ''application/json''),
                  (''X-Goog-FieldMask'', JStr ''*''),
                  (''X-Goog-Api-Key'', JStr ''k'')],
       body = Some ''{"textQuery":"pizza","pageSize":5}''\<rparr>]
   \<and> (\<exists>sent. ''{"textQuery":"pizza","pageSize":5}'' = json_object_text sent
          \<and> getAll ''pageSize'' sent = [''5''])\<close>
proof -
  let ?a = "[(''size'', JStr ''600x400''), (''heading'', JNum 180)]"
  let ?s = "\<lparr>meth = GET,
       url = ''https://www.googleapis.com/maps/api/streetview?size=600x400&fov=90&heading=180&radius=50&key=k'',
       headers = [(''Accept'', JStr ''image/*'')], body = None\<rparr>"
  let ?b = \<open>[(''textQuery'', JStr ''pizza''), (''pageSize'', JNum 5)]\<close>
  let ?p = \<open>\<lparr>meth = POST,
       url = ''https://places.googleapis.com/v1/places:searchText'',
       headers = [(''Content-Type'', JStr ''application/json''),
                  (''X-Goog-FieldMask'', JStr ''*''),
                  (''X-Goog-Api-Key'', JStr ''k'')],
       body = Some ''{"textQuery":"pizza","pageSize":5}''\<rparr>\<close>
  have 1: "issued (executeFunction GetStreetView (Some ''k'') ?a
             (answering (NetworkError ''offline''))) = [?s]"
    by code_simp
  have 2: "''heading'' \<in> set (optional_fields GetStreetView)"
    by simp
  have 3: "''pano'' \<in> set (optional_fields GetStreetView)"
    by simp
  have 4: "issued (executeFunction TextSearchPlaces (Some ''k'') ?b
             (answering (NetworkError ''offline''))) = [?p]"
    by code_simp
  have 5: "''pageSize'' \<in> set (optional_fields TextSearchPlaces)"
    by simp
  have 6: "to_str (JNum 180) = ''180''" "stringify (JNum 5) = Some ''5''"
    by code_simp+
  have "getAll ''heading'' (query_params (url ?s)) = [''180'']"
    using optional_fields_forwarded[OF 1 2] 6 by (simp add: posts_json_def)
  moreover have "getAll ''pano'' (query_params (url ?s)) = []"
    using optional_fields_forwarded[OF 1 3] by (simp add: posts_json_def)
  moreover have "\<exists>sent. body ?p = Some (json_object_text sent)
      \<and> getAll ''pageSize'' sent = [''5'']"
    using optional_fields_forwarded[OF 4 5] 6 by (auto simp: posts_json_def)
  ultimately show ?thesis
    using 1 4 by simp
qed

text \<open>
  C4 as stated fails at \<open>get_street_view\<close>, called with
  \<^verbatim>\<open>{size:"600x400", heading:0}\<close>: the given \<open>heading\<close> is not in the
  request (\<^verbatim>\<open>if (heading)\<close> is false for 0), while the omitted \<open>fov\<close>
  and \<open>radius\<close> are, with their defaults.
\<close>

theorem street_view_zero_heading_dropped:
  "issued (executeFunction GetStreetView (Some ''k'')
       [(''size'', JStr ''600x400''), (''heading'', JNum 0)]
       (answering (NetworkError ''offline''))) =
     [\<lparr>meth = GET,
       url = ''https://www.googleapis.com/maps/api/streetview?size=600x400&fov=90&radius=50&key=k'',
       headers = [(''Accept'', JStr ''image/*'')],
       body = None\<rparr>]
   \<and> query_params
         ''https://www.googleapis.com/maps/api/streetview?size=600x400&fov=90&radius=50&key=k''
       = [(''size'', ''600x400''), (''fov'', ''90''), (''radius'', ''50''), (''key'', ''k'')]"
  by code_simp

section \<open>Failures\<close>

text \<open>
  C1. For every adapter other than the two image adapters, whenever the request it issued
  fails (the network fails, the upstream status is not 2xx, or the body does not decode),
  the call does not reject: it resolves to an object whose one property is \<open>error\<close>,
  holding a string (the adapter's context followed by a message).
\<close>

theorem json_adapters_never_throw:
  assumes "decoder_of t \<noteq> BufferBody"
    and "issued (executeFunction t env a net) = [req]"
    and "failed t (net req)"
  shows "\<exists>m. result (executeFunction t env a net)
               = Resolved (JObj [(''error'', JStr (error_context t @ m))])"
proof -
  have req: "request_of t env a = Inr req"
    using assms(2) by (rule issued_single)
  have "result (executeFunction t env a net) =
          Resolved (JObj [(''error'', JStr (error_context t @
           (case net req of NetworkError m \<Rightarrow> m | Response r \<Rightarrow>
              if \<not> ok r then not_ok_error t r else projl (body_json r))))])"
  proof (cases "net req")
    case (NetworkError m)
    with req assms(1) show ?thesis
      by (simp add: executeFunction_def caught_def catch_clause_def)
  next
    case (Response r)
    with req assms(1,3) show ?thesis
      by (cases "decoder_of t"; cases "body_json r")
         (auto simp: executeFunction_def caught_def catch_clause_def read_body_def)
  qed
  then show ?thesis ..
qed

theorem json_adapters_never_throw_witness:
  \<open>(\<exists>m. result (executeFunction GeocodeAddress (Some ''k'') [(''address'', JStr ''Main St'')]
          (answering (Response \<lparr>status = 403, statusText = ''Forbidden'',
             body_text = ''{"status":"REQUEST_DENIED"}'',
             body_json = Inr (JObj [(''status'', JStr ''REQUEST_DENIED'')])\<rparr>)))
        = Resolved (JObj [(''error'',
            JStr (''An error occurred while geocoding the address: '' @ m))]))
   \<and> result (executeFunction GeocodeAddress (Some ''k'') [(''address'', JStr ''Main St'')]
          (answering (Response \<lparr>status = 403, statusText = ''Forbidden'',
             body_text = ''{"status":"REQUEST_DENIED"}'',
             body_json = Inr (JObj [(''status'', JStr ''REQUEST_DENIED'')])\<rparr>)))
        = Resolved (JObj [(''error'',
            JStr ''An error occurred while geocoding the address: {"status":"REQUEST_DENIED"}'')])\<close>
proof -
  let ?r = \<open>\<lparr>status = 403, statusText = ''Forbidden'',
             body_text = ''{"status":"REQUEST_DENIED"}'',
             body_json = Inr (JObj [(''status'', JStr ''REQUEST_DENIED'')])\<rparr>\<close>
  let ?req = "\<lparr>meth = GET,
      url = ''https://www.googleapis.com/maps/api/geocode/json?address=Main+St&language=en&region=en&key=k'',
      headers = [(''Accept'', JStr ''application/json'')], body = None\<rparr>"
  have 1: "decoder_of GeocodeAddress \<noteq> BufferBody" by simp
  have 2: "issued (executeFunction GeocodeAddress (Some ''k'') [(''address'', JStr ''Main St'')]
             (answering (Response ?r))) = [?req]"
    by code_simp
  have 3: "failed GeocodeAddress (answering (Response ?r) ?req)"
    by (simp add: answering_def ok_def)
  have 4: \<open>result (executeFunction GeocodeAddress (Some ''k'') [(''address'', JStr ''Main St'')]
          (answering (Response ?r)))
        = Resolved (JObj [(''error'',
            JStr ''An error occurred while geocoding the address: {"status":"REQUEST_DENIED"}'')])\<close>
    by code_simp
  show ?thesis
    using json_adapters_never_throw[OF 1 2 3] 4 by simp
qed

text \<open>
  C2. For each of the two image adapters (\<open>get_street_view\<close>, \<open>get_place_photo\<close>), a
  response outside 2xx makes the call reject: the Error thrown for the status is caught,
  logged and thrown again in a new Error, not turned into an envelope, and the message of
  the rejection contains the decimal HTTP status.
\<close>

theorem binary_adapters_throw:
  assumes "decoder_of t = BufferBody"
    and "issued (executeFunction t env a net) = [req]"
    and "net req = Response r"
    and "\<not> ok r"
  shows "result (executeFunction t env a net) = Rejected (error_context t @ status_error t r)
       \<and> sublist (digits (status r)) (error_context t @ status_error t r)"
proof -
  have "request_of t env a = Inr req"
    using assms(2) by (rule issued_single)
  then have "result (executeFunction t env a net) = Rejected (error_context t @ status_error t r)"
    using assms(1,3,4)
    by (simp add: executeFunction_def caught_def catch_clause_def not_ok_error_def)
  moreover have "sublist (digits (status r)) (error_context t @ status_error t r)"
    using sublist_status_error[of r t] by (metis sublist_append)
  ultimately show ?thesis ..
qed

theorem binary_adapters_throw_witness:
  "result (executeFunction GetStreetView None [(''size'', JStr ''600x400'')]
       (answering (Response \<lparr>status = 404, statusText = ''Not Found'', body_text = ''Not Found'',
                       body_json = Inl ''Unexpected token N in JSON at position 0''\<rparr>)))
     = Rejected ''An error occurred while retrieving the Street View image: HTTP error! status: 404''
   \<and> sublist ''404''
        ''An error occurred while retrieving the Street View image: HTTP error! status: 404''"
proof -
  let ?r = "\<lparr>status = 404, statusText = ''Not Found'', body_text = ''Not Found'',
             body_json = Inl ''Unexpected token N in JSON at position 0''\<rparr>"
  let ?req = "\<lparr>meth = GET,
      url = ''https://www.googleapis.com/maps/api/streetview?size=600x400&fov=90&radius=50&key=undefined'',
      headers = [(''Accept'', JStr ''image/*'')], body = None\<rparr>"
  have 1: "decoder_of GetStreetView = BufferBody" by simp
  have 2: "issued (executeFunction GetStreetView None [(''size'', JStr ''600x400'')]
             (answering (Response ?r))) = [?req]"
    by code_simp
  have 3: "answering (Response ?r) ?req = Response ?r"
    by (simp add: answering_def)
  have 4: "\<not> ok ?r"
    by (simp add: ok_def)
  have 5: "digits 404 = ''404''" by code_simp
  show ?thesis
    using binary_adapters_throw[OF 1 2 3 4] 5 by simp
qed

text \<open>The adapters that decode with \<^verbatim>\<open>response.json()\<close> parse the body of a
  response outside 2xx before they throw: when that body does not parse, the SyntaxError
  is caught by the adapter's own catch clause, and the call resolves to the object whose
  \<open>error\<close> is the context followed by the parser's message.\<close>

lemma unparseable_error_body:
  assumes "decoder_of t = JsonBody"
    and "issued (executeFunction t env a net) = [req]"
    and "net req = Response r"
    and "\<not> ok r"
    and "body_json r = Inl syntax_error"
  shows "result (executeFunction t env a net) =
           Resolved (JObj [(''error'', JStr (error_context t @ syntax_error))])"
proof -
  have req: "request_of t env a = Inr req"
    using assms(2) by (rule issued_single)
  with assms show ?thesis
    by (simp add: executeFunction_def caught_def catch_clause_def not_ok_error_def)
qed

text \<open>
  C9 at \<open>get_heatmap_tiles\<close>. The adapter reads the body of a response outside 2xx with
  \<^verbatim>\<open>response.text()\<close> and throws it as it is. For a 502 response whose body
  \<^verbatim>\<open><html>Bad Gateway</html>\<close> is not JSON, nothing is parsed and no parse
  fails: the call resolves to the object whose \<open>error\<close> is the context followed
  by the upstream body itself, where the adapters that decode with
  \<^verbatim>\<open>response.json()\<close> report the parser's message
  (\<open>unparseable_error_body\<close>).
\<close>

theorem heatmap_tiles_error_carries_body:
  \<open>result (executeFunction GetHeatmapTiles (Some ''k'')
       [(''mapType'', JStr ''TREE_UPI''), (''x'', JNum 2), (''y'', JNum 1), (''zoom'', JNum 3)]
       (answering (Response \<lparr>status = 502, statusText = ''Bad Gateway'',
          body_text = ''<html>Bad Gateway</html>'',
          body_json = Inl ''Unexpected token < in JSON at position 0''\<rparr>)))
     = Resolved (JObj [(''error'',
         JStr ''An error occurred while fetching heatmap tiles: <html>Bad Gateway</html>'')])
   \<and> result (executeFunction GetHeatmapTiles (Some ''k'')
       [(''mapType'', JStr ''TREE_UPI''), (''x'', JNum 2), (''y'', JNum 1), (''zoom'', JNum 3)]
       (answering (Response \<lparr>status = 502, statusText = ''Bad Gateway'',
          body_text = ''<html>Bad Gateway</html>'',
          body_json = Inl ''Unexpected token < in JSON at position 0''\<rparr>)))
     \<noteq> Resolved (JObj [(''error'',
         JStr ''An error occurred while fetching heatmap tiles: Unexpected token < in JSON at position 0'')])\<close>
  by code_simp

section \<open>Successful responses\<close>

text \<open>The adapters that decode with \<^verbatim>\<open>response.json()\<close> return the parsed body
  of a 2xx response as it is.\<close>

lemma json_body_returned:
  assumes "decoder_of t = JsonBody"
    and "issued (executeFunction t env a net) = [req]"
    and "net req = Response r"
    and "ok r"
    and "body_json r = Inr data"
  shows "result (executeFunction t env a net) = Resolved data"
proof -
  have req: "request_of t env a = Inr req"
    using assms(2) by (rule issued_single)
  with assms show ?thesis
    by (simp add: executeFunction_def read_body_def)
qed

text \<open>The image adapters call \<^verbatim>\<open>response.buffer()\<close>, which the global
  \<^verbatim>\<open>fetch\<close> does not have: on a 2xx response the TypeError is caught and thrown
  again, so the call rejects.\<close>

lemma street_view_rejects_on_success:
  "result (executeFunction GetStreetView (Some ''k'') [(''size'', JStr ''600x400'')]
       (answering (Response \<lparr>status = 200, statusText = ''OK'', body_text = ''JFIF'',
                       body_json = Inl ''Unexpected token J in JSON at position 0''\<rparr>)))
     = Rejected ''An error occurred while retrieving the Street View image: response.buffer is not a function''"
  by code_simp

text \<open>
  C3 at \<open>get_heatmap_tiles\<close>. For a 200 response whose body is the JSON text
  \<^verbatim>\<open>{"tile":"abc"}\<close> the adapter returns that text as a string, not the parsed
  object: it reads the body with \<^verbatim>\<open>response.text()\<close>, where every other adapter
  that is not an image adapter returns the parsed body (\<open>json_body_returned\<close>).
\<close>

theorem heatmap_tiles_returns_text:
  \<open>result (executeFunction GetHeatmapTiles (Some ''k'')
       [(''mapType'', JStr ''TREE_UPI''), (''x'', JNum 2), (''y'', JNum 1), (''zoom'', JNum 3)]
       (answering (Response \<lparr>status = 200, statusText = ''OK'',
          body_text = ''{"tile":"abc"}'',
          body_json = Inr (JObj [(''tile'', JStr ''abc'')])\<rparr>)))
     = Resolved (JStr ''{"tile":"abc"}'')
   \<and> result (executeFunction GetHeatmapTiles (Some ''k'')
       [(''mapType'', JStr ''TREE_UPI''), (''x'', JNum 2), (''y'', JNum 1), (''zoom'', JNum 3)]
       (answering (Response \<lparr>status = 200, statusText = ''OK'',
          body_text = ''{"tile":"abc"}'',
          body_json = Inr (JObj [(''tile'', JStr ''abc'')])\<rparr>)))
     \<noteq> Resolved (JObj [(''tile'', JStr ''abc'')])\<close>
  by code_simp

section \<open>The API key\<close>

text \<open>
  C5 at \<open>get_video\<close>. With the key \<^verbatim>\<open>KEY\<close> and
  \<^verbatim>\<open>{videoId:"abc"}\<close> the adapter fetches
  \<^verbatim>\<open>...lookupVideo?videoId=abc?key=KEY\<close>: the key is glued with a second
  \<^verbatim>\<open>?\<close> to a URL that already has a query. The query of that URL has the one
  parameter \<open>videoId\<close>, with the value \<^verbatim>\<open>abc?key=KEY\<close>; there is no
  parameter named \<open>key\<close>, and no \<^verbatim>\<open>X-Goog-Api-Key\<close> header. Every other
  adapter sends the key (\<open>key_sent_elsewhere\<close>).
\<close>

theorem get_video_key_not_a_parameter:
  "issued (executeFunction GetVideo (Some ''KEY'') [(''videoId'', JStr ''abc'')]
       (answering (NetworkError ''offline''))) =
     [\<lparr>meth = GET,
       url = ''https://aerialview.googleapis.com/v1/videos:lookupVideo?videoId=abc?key=KEY'',
       headers = [(''Content-Type'', JStr ''application/json'')],
       body = None\<rparr>]
   \<and> query_params ''https://aerialview.googleapis.com/v1/videos:lookupVideo?videoId=abc?key=KEY''
       = [(''videoId'', ''abc?key=KEY'')]"
  by code_simp

text \<open>
  C10 (as the code has it). No adapter fails fast when the key is unset: whenever the
  adapter issues a request with a key, it issues one without. A header adapter then sends
  \<^verbatim>\<open>undefined\<close> as its \<^verbatim>\<open>X-Goog-Api-Key\<close>; a query adapter's URL
  ends in \<^verbatim>\<open>key=undefined\<close>, except for \<open>get_forecast\<close>, which tests the
  key and sends no \<open>key\<close> parameter at all.
\<close>

theorem unset_key_still_requests:
  assumes "issued (executeFunction t (Some k) a net') = [req']"
  shows "\<exists>req. issued (executeFunction t None a net) = [req]
      \<and> (if key_in_header t then (''X-Goog-Api-Key'', JUndefined) \<in> set (headers req)
         else if t = GetForecast
           then (\<exists>ps. url req = href ''https://pollen.googleapis.com/v1/forecast:lookup'' ps
                      \<and> ''key'' \<notin> fst ` set ps)
         else suffix ''key=undefined'' (url req))"
proof -
  have "request_of t (Some k) a = Inr req'"
    using assms by (rule issued_single)
  from unset_key_request[OF this] obtain req where 1: "request_of t None a = Inr req"
    and 2: "if key_in_header t then (''X-Goog-Api-Key'', JUndefined) \<in> set (headers req)
         else if t = GetForecast
           then (\<exists>ps. url req = href ''https://pollen.googleapis.com/v1/forecast:lookup'' ps
                      \<and> ''key'' \<notin> fst ` set ps)
         else suffix ''key=undefined'' (url req)"
    by blast
  from 1 have "issued (executeFunction t None a net) = [req]"
    by (rule issued_of_request)
  with 2 show ?thesis by blast
qed

theorem unset_key_still_requests_witness:
  "\<exists>req. issued (executeFunction GetDirections None
             [(''origin'', JStr ''A''), (''destination'', JStr ''B'')]
             (answering (NetworkError ''offline''))) = [req]
      \<and> suffix ''key=undefined'' (url req)"
proof -
  have 1: "issued (executeFunction GetDirections (Some ''k'')
             [(''origin'', JStr ''A''), (''destination'', JStr ''B'')]
             (answering (NetworkError ''offline''))) =
     [\<lparr>meth = GET,
       url = ''https://www.googleapis.com/maps/api/directions/json?origin=A&destination=B&mode=driving&language=en&units=metric&traffic_model=best_guess&key=k'',
       headers = [(''Accept'', JStr ''application/json'')], body = None\<rparr>]"
    by code_simp
  show ?thesis
    using unset_key_still_requests[OF 1, of "answering (NetworkError ''offline'')"]
    by (simp add: key_in_header_def)
qed

text \<open>
  C10 as stated fails at \<open>get_forecast\<close>: with the key unset, the URL it fetches has
  no \<^verbatim>\<open>key=undefined\<close>.
\<close>

theorem get_forecast_omits_unset_key:
  "issued (executeFunction GetForecast None
       [(''longitude'', JNum (-122)), (''latitude'', JNum 37), (''days'', JNum 3)]
       (answering (NetworkError ''offline''))) =
     [\<lparr>meth = GET,
       url = ''https://pollen.googleapis.com/v1/forecast:lookup?location.longitude=-122&location.latitude=37&days=3'',
       headers = [(''Content-Type'', JStr ''application/json'')],
       body = None\<rparr>]
   \<and> \<not> sublist ''key=undefined''
       ''https://pollen.googleapis.com/v1/forecast:lookup?location.longitude=-122&location.latitude=37&days=3''"
  by code_simp

end
